theory Spec2Isabelle
  imports Main "HOL-Library.Sublist"
begin

section \<open>Python values and the string operations the code uses\<close>

text \<open>
  What \<open>json.loads\<close> and \<open>response.json()\<close> hand to the code: a Python value built
  from \<open>None\<close>, booleans, numbers, strings, lists and dicts. A number is kept as its
  literal, since the code never looks inside one. A dict is an association list of its
  items in insertion order (keys distinct, as in a dict); \<open>map_of\<close> looks a key up.
  A Python \<open>str\<close> is modelled as a \<open>string\<close> whose characters are the code points
  below 256.
\<close>

datatype json =
    JNull
  | JBool bool
  | JNum string
  | JStr string
  | JArr "json list"
  | JObj "(string \<times> json) list"

text \<open>
  The exceptions that can occur. \<open>Raised m\<close> is an exception raised by an external
  library or capability (network, authentication, unreadable file), with its message.
\<close>

datatype exn =
    TypeError
  | KeyError string
  | AttributeError
  | IndexError
  | JSONDecodeError
  | HTTPError nat
  | ValueError string
  | FileNotFoundError string
  | RecursionError
  | Raised string

definition bindE :: "exn + 'a \<Rightarrow> ('a \<Rightarrow> exn + 'b) \<Rightarrow> exn + 'b" where
  "bindE m f = (case m of Inl e \<Rightarrow> Inl e | Inr x \<Rightarrow> f x)"

subsection \<open>\<open>str.lower\<close>, \<open>in\<close>, \<open>join\<close>, \<open>split\<close>, \<open>strip\<close>\<close>

definition upper_chars :: string where
  "upper_chars = ''ABCDEFGHIJKLMNOPQRSTUVWXYZ'' @
     [CHR 0xC0, CHR 0xC1, CHR 0xC2, CHR 0xC3, CHR 0xC4, CHR 0xC5, CHR 0xC6, CHR 0xC7,
      CHR 0xC8, CHR 0xC9, CHR 0xCA, CHR 0xCB, CHR 0xCC, CHR 0xCD, CHR 0xCE, CHR 0xCF,
      CHR 0xD0, CHR 0xD1, CHR 0xD2, CHR 0xD3, CHR 0xD4, CHR 0xD5, CHR 0xD6,
      CHR 0xD8, CHR 0xD9, CHR 0xDA, CHR 0xDB, CHR 0xDC, CHR 0xDD, CHR 0xDE]"

definition lower_chars :: string where
  "lower_chars = ''abcdefghijklmnopqrstuvwxyz'' @
     [CHR 0xE0, CHR 0xE1, CHR 0xE2, CHR 0xE3, CHR 0xE4, CHR 0xE5, CHR 0xE6, CHR 0xE7,
      CHR 0xE8, CHR 0xE9, CHR 0xEA, CHR 0xEB, CHR 0xEC, CHR 0xED, CHR 0xEE, CHR 0xEF,
      CHR 0xF0, CHR 0xF1, CHR 0xF2, CHR 0xF3, CHR 0xF4, CHR 0xF5, CHR 0xF6,
      CHR 0xF8, CHR 0xF9, CHR 0xFA, CHR 0xFB, CHR 0xFC, CHR 0xFD, CHR 0xFE]"

definition lower_char :: "char \<Rightarrow> char" where
  "lower_char c = (case map_of (zip upper_chars lower_chars) c of Some d \<Rightarrow> d | None \<Rightarrow> c)"

definition lower :: "string \<Rightarrow> string" where
  "lower s = map lower_char s"

text \<open>\<open>sub in s\<close> on two strings: \<open>sub\<close> occurs in \<open>s\<close> as a contiguous piece.\<close>

fun py_contains :: "string \<Rightarrow> string \<Rightarrow> bool" where
  "py_contains sub [] = (sub = [])"
| "py_contains sub (c # cs) = (prefix sub (c # cs) \<or> py_contains sub cs)"

fun py_join :: "string \<Rightarrow> string list \<Rightarrow> string" where
  "py_join sep [] = []"
| "py_join sep [x] = x"
| "py_join sep (x # y # ys) = x @ sep @ py_join sep (y # ys)"

text \<open>
  \<open>s.split(sep)\<close> for a non-empty separator: the pieces between the occurrences of
  \<open>sep\<close>, found from the left without overlap. \<open>cur\<close> is the piece being read.
\<close>

fun split_from :: "string \<Rightarrow> string \<Rightarrow> string \<Rightarrow> string list" where
  "split_from sep cur [] = [cur]"
| "split_from sep cur (c # cs) =
     (if sep \<noteq> [] \<and> prefix sep (c # cs)
      then cur # split_from sep [] (drop (length sep - 1) cs)
      else split_from sep (cur @ [c]) cs)"

definition py_split :: "string \<Rightarrow> string \<Rightarrow> string list" where
  "py_split sep s = split_from sep [] s"

text \<open>The characters below 256 that \<open>str.isspace\<close> accepts; \<open>strip()\<close> drops them at both ends.\<close>

definition space_chars :: string where
  "space_chars = [CHR 0x09, CHR 0x0A, CHR 0x0B, CHR 0x0C, CHR 0x0D, CHR 0x1C, CHR 0x1D,
     CHR 0x1E, CHR 0x1F, CHR 0x20, CHR 0x85, CHR 0xA0]"

definition strip_chars :: "string \<Rightarrow> string \<Rightarrow> string" where
  "strip_chars cs s = rev (dropWhile (\<lambda>c. c \<in> set cs) (rev (dropWhile (\<lambda>c. c \<in> set cs) s)))"

definition strip :: "string \<Rightarrow> string" where
  "strip s = strip_chars space_chars s"

text \<open>\<open>str(n)\<close> of a natural number.\<close>

definition digit_char :: "nat \<Rightarrow> char" where
  "digit_char d = ''0123456789'' ! d"

fun str_nat_fuel :: "nat \<Rightarrow> nat \<Rightarrow> string" where
  "str_nat_fuel 0 n = []"
| "str_nat_fuel (Suc f) n =
     (if n < 10 then [digit_char n] else str_nat_fuel f (n div 10) @ [digit_char (n mod 10)])"

definition str_nat :: "nat \<Rightarrow> string" where
  "str_nat n = str_nat_fuel (Suc n) n"

subsection \<open>Operations on parsed values\<close>

text \<open>\<open>key in v\<close> for a string \<open>key\<close>: dict membership, list membership, substring, or TypeError.\<close>

fun py_in :: "string \<Rightarrow> json \<Rightarrow> exn + bool" where
  "py_in key (JObj kvs) = Inr (key \<in> set (map fst kvs))"
| "py_in key (JArr xs) = Inr (JStr key \<in> set xs)"
| "py_in key (JStr s) = Inr (py_contains key s)"
| "py_in key v = Inl TypeError"

text \<open>\<open>v[key]\<close> for a string \<open>key\<close>: only a dict can be indexed by a string.\<close>

fun py_getitem :: "json \<Rightarrow> string \<Rightarrow> exn + json" where
  "py_getitem (JObj kvs) key =
     (case map_of kvs key of None \<Rightarrow> Inl (KeyError key) | Some v \<Rightarrow> Inr v)"
| "py_getitem v key = Inl TypeError"

text \<open>\<open>v.get(key, default)\<close>: only a dict has the method.\<close>

fun py_get :: "json \<Rightarrow> string \<Rightarrow> json \<Rightarrow> exn + json" where
  "py_get (JObj kvs) key d = Inr (case map_of kvs key of None \<Rightarrow> d | Some v \<Rightarrow> v)"
| "py_get v key d = Inl AttributeError"

text \<open>\<open>for x in v\<close>: the elements of a list, the keys of a dict, the characters of a string.\<close>

fun py_iter :: "json \<Rightarrow> exn + json list" where
  "py_iter (JArr xs) = Inr xs"
| "py_iter (JObj kvs) = Inr (map (\<lambda>kv. JStr (fst kv)) kvs)"
| "py_iter (JStr s) = Inr (map (\<lambda>c. JStr [c]) s)"
| "py_iter v = Inl TypeError"

text \<open>\<open>sep.join(xs)\<close> on a list of values: every item has to be a \<open>str\<close>.\<close>

fun the_strs :: "json list \<Rightarrow> string list option" where
  "the_strs [] = Some []"
| "the_strs (JStr s # xs) = (case the_strs xs of None \<Rightarrow> None | Some ss \<Rightarrow> Some (s # ss))"
| "the_strs (v # xs) = None"

definition py_join_values :: "string \<Rightarrow> json list \<Rightarrow> exn + string" where
  "py_join_values sep xs =
     (case the_strs xs of None \<Rightarrow> Inl TypeError | Some ss \<Rightarrow> Inr (py_join sep ss))"

section \<open>Tables, capabilities and the observable trace\<close>

text \<open>
  A cell of a DataFrame row is a \<open>str\<close>, or some other pandas value (NaN for an empty
  field, a number, a boolean), kept with its \<open>str()\<close> rendering.
\<close>

datatype cell = CStr string | CNonStr string

fun cell_str :: "cell \<Rightarrow> string" where
  "cell_str (CStr s) = s"
| "cell_str (CNonStr r) = r"

text \<open>
  A DataFrame: the column labels and the rows, each row holding one cell per column, in
  the order of the labels. A row shorter than the header cannot occur in a DataFrame; the
  lookup raises KeyError there, as it does for a label that is not a column.
  \<open>non_text\<close> lists the columns whose dtype holds no text: a numeric or boolean column, such
  as one that \<open>read_csv\<close> found with every field empty or a number. pandas refuses to put
  a \<open>str\<close> into a cell of such a column (TypeError, as pandas 3 does; a version that
  converts the column instead is a table that lists no such column).
\<close>

record table =
  columns :: "string list"
  rows :: "cell list list"
  non_text :: "string list"

fun index_of :: "'a \<Rightarrow> 'a list \<Rightarrow> nat option" where
  "index_of x [] = None"
| "index_of x (y # ys) = (if x = y then Some 0 else map_option Suc (index_of x ys))"

definition row_get :: "table \<Rightarrow> cell list \<Rightarrow> string \<Rightarrow> exn + cell" where
  "row_get df r c =
     (case index_of c (columns df) of
        None \<Rightarrow> Inl (KeyError c)
      | Some j \<Rightarrow> if j < length r then Inr (r ! j) else Inl (KeyError c))"

text \<open>\<open>df[c] = v\<close> for a label that is not yet a column: a new last column holding \<open>v\<close>.\<close>

definition add_column :: "table \<Rightarrow> string \<Rightarrow> cell \<Rightarrow> table" where
  "add_column df c v = df\<lparr>columns := columns df @ [c], rows := map (\<lambda>r. r @ [v]) (rows df)\<rparr>"

text \<open>
  \<open>df.at[i, c] = s\<close> for a \<open>str\<close> \<open>s\<close>, an existing row \<open>i\<close> and an existing column
  \<open>c\<close>: the assignment raises when the column holds no text.
\<close>

definition set_at :: "table \<Rightarrow> nat \<Rightarrow> string \<Rightarrow> string \<Rightarrow> exn + table" where
  "set_at df i c s =
     (if c \<in> set (non_text df) then Inl TypeError
      else
        (case index_of c (columns df) of
           None \<Rightarrow> Inr df
         | Some j \<Rightarrow> Inr (df\<lparr>rows := (rows df)[i := (rows df ! i)[j := CStr s]]\<rparr>)))"

text \<open>\<open>df.head(n)\<close>.\<close>

definition head :: "nat \<Rightarrow> table \<Rightarrow> table" where
  "head n df = df\<lparr>rows := take n (rows df)\<rparr>"

text \<open>
  What a run does that can be observed from outside, in order: log records, pauses,
  calls of the two capabilities and writes of the output file. \<open>Error p None\<close> is
  \<open>logging.error\<close> of the text \<open>p\<close>, and \<open>Error p (Some e)\<close> of \<open>p\<close> followed by
  \<open>str(e)\<close>.
\<close>

datatype event =
    Info string
  | Warning string
  | Error string "exn option"
  | Sleep nat
  | SearchCall string
  | CompleteCall string
  | Save string table

text \<open>
  The external capabilities. The search capability answers the \<open>k\<close>-th request for the
  query \<open>q\<close> by raising, or with a status code and what \<open>response.json()\<close> makes of the
  body. The completion capability answers the \<open>k\<close>-th request for a prompt by raising
  (also when the answer has no choice to read), or with the content of the first choice,
  which can be \<open>None\<close>. \<open>loads\<close> is \<open>json.loads\<close>: the parsed value,
  \<open>JSONDecodeError\<close> for a text that is not JSON, or another exception.
  \<open>depth\<close> is the room the interpreter's recursion limit leaves at the place where the
  pipeline calls the resolver: the number of nested calls of the resolver that can run.
\<close>

datatype search_outcome = SearchRaised exn | Response nat "exn + json"

datatype completion_outcome = CompletionRaised exn | Content "string option"

record world =
  search_api :: "nat \<Rightarrow> string \<Rightarrow> search_outcome"
  completion_api :: "nat \<Rightarrow> string \<Rightarrow> completion_outcome"
  loads :: "string \<Rightarrow> exn + json"
  depth :: nat

text \<open>
  The state a run threads through: the files written so far, how many requests each
  capability has answered, and the trace.
\<close>

record state =
  files :: "string \<rightharpoonup> table"
  searches :: nat
  completions :: nat
  trace :: "event list"

definition emit :: "event list \<Rightarrow> state \<Rightarrow> state" where
  "emit evs st = st\<lparr>trace := trace st @ evs\<rparr>"

section \<open>The taxonomy and the label classifier (\<open>serpapi_method.py\<close>)\<close>

definition INTERESTS :: "string list" where
  "INTERESTS =
    [''Strategy'', ''Operations'', ''Entrepreneurship'', ''Leadership'', ''Management'',
     ''Marketing'', ''Sales'', ''Investing'', ''Personal Finance'', ''Corporate Finance'',
     ''Financial Planning'', ''Venture Capital'', ''Economics'', ''Artificial Intelligence'',
     ''Blockchain'', ''Cybersecurity'', ''Software Development'', ''Data Science'',
     ''Cloud Computing'', ''Remote Work'', ''Career Development'', ''Workplace Culture'',
     ''Job Hunting'', ''Networking'', ''Freelancing'', ''Mental Health'', ''Physical Fitness'',
     ''Nutrition'', ''Mindfulness'', ''Work-Life Balance'', ''Sleep'', ''Productivity'',
     ''Time Management'', ''Goal Setting'', ''Habits'', ''Self-Discipline'', ''Motivation'',
     ''Lifelong Learning'', ''Online Courses'', ''Reading'', ''Writing'', ''Public Speaking'',
     ''Critical Thinking'', ''Design'', ''Storytelling'', ''Content Creation'', ''Innovation'',
     ''Art'', ''Media'', ''Diversity & Inclusion'', ''Social Impact'', ''Ethics'',
     ''Global Trends'', ''Politics'', ''Sustainability'', ''Space Exploration'',
     ''Climate Change'', ''Biotech'', ''Futurism'', ''Quantum Computing'',
     ''Emerging Technologies'']"

definition sentinel :: string where
  "sentinel = ''Profile inaccessible''"

record person_info =
  first_name :: cell
  last_name :: cell
  company :: cell
  position :: cell

definition nl :: string where
  "nl = [CHR 0x0A]"

definition indent :: string where
  "indent = ''        ''"

definition build_prompt :: "string \<Rightarrow> person_info \<Rightarrow> string" where
  "build_prompt truncated_text info =
     nl @ indent @ ''Based on the following LinkedIn profile information, select at least 5 most relevant interests from the provided list.'' @
     nl @ indent @ ''Only select from these interests: '' @ py_join '', '' INTERESTS @
     nl @ indent @
     nl @ indent @ ''Person's information:'' @
     nl @ indent @ ''Name: '' @ cell_str (first_name info) @ '' '' @ cell_str (last_name info) @
     nl @ indent @ ''Company: '' @ cell_str (company info) @
     nl @ indent @ ''Position: '' @ cell_str (position info) @
     nl @ indent @
     nl @ indent @ ''Profile content:'' @
     nl @ indent @ truncated_text @
     nl @ indent @
     nl @ indent @ ''Return the interests as a JSON array of strings, selecting the most relevant interests based on the profile information.'' @
     nl @ indent @ ''Example response format: [\"Leadership\", \"Management\", \"Strategy\", \"Innovation\", \"Career Development\"]'' @
     nl @ indent"

text \<open>
  What the classifier returns, \<open>interests[:10]\<close>: the slice of a list is a list, the slice
  of a \<open>str\<close> is a \<open>str\<close>, and nothing else that \<open>json.loads\<close> returns can be sliced.
\<close>

datatype tags = TagList "json list" | TagStr string

fun slice10 :: "json \<Rightarrow> exn + tags" where
  "slice10 (JArr xs) = Inr (TagList (take 10 xs))"
| "slice10 (JStr s) = Inr (TagStr (take 10 s))"
| "slice10 v = Inl TypeError"

fun tags_len :: "tags \<Rightarrow> nat" where
  "tags_len (TagList xs) = length xs"
| "tags_len (TagStr s) = length s"

text \<open>The fallback of lines 79 to 84: the labels whose lower-cased text occurs in the lower-cased answer.\<close>

definition scan_taxonomy :: "string \<Rightarrow> string list" where
  "scan_taxonomy txt = filter (\<lambda>interest. py_contains (lower interest) (lower txt)) INTERESTS"

definition fallback_interests :: "string \<Rightarrow> string list" where
  "fallback_interests txt =
     (let interests = scan_taxonomy txt in if interests = [] then [sentinel] else interests)"

text \<open>
  Lines 69 to 84, the value of \<open>interests\<close>: the inner \<open>try\<close> with its handler for
  \<open>JSONDecodeError\<close>; any other exception passes through.
\<close>

definition try_json :: "(string \<Rightarrow> exn + json) \<Rightarrow> string \<Rightarrow> exn + json" where
  "try_json ld txt =
     bindE (ld txt) (\<lambda>interests_data.
       case interests_data of
         JObj kvs \<Rightarrow>
           if ''interests'' \<in> set (map fst kvs) then py_getitem interests_data ''interests''
           else ld txt
       | _ \<Rightarrow> ld txt)"

definition parse_interests :: "(string \<Rightarrow> exn + json) \<Rightarrow> string \<Rightarrow> exn + json" where
  "parse_interests ld txt =
     (case try_json ld txt of
        Inl e \<Rightarrow>
          if e = JSONDecodeError then Inr (JArr (map JStr (fallback_interests txt))) else Inl e
      | Inr interests \<Rightarrow> Inr interests)"

text \<open>Lines 36 to 86, the body of the outer \<open>try\<close>.\<close>

definition classify_body :: "world \<Rightarrow> nat \<Rightarrow> string \<Rightarrow> person_info \<Rightarrow> exn + tags" where
  "classify_body w k profile_text info =
     (case completion_api w k (build_prompt (take 2000 profile_text) info) of
        CompletionRaised e \<Rightarrow> Inl e
      | Content None \<Rightarrow> Inl TypeError
      | Content (Some interests_text) \<Rightarrow> bindE (parse_interests (loads w) interests_text) slice10)"

definition sentinel_tags :: tags where
  "sentinel_tags = TagList [JStr sentinel]"

definition get_interests_from_profile ::
  "world \<Rightarrow> nat \<Rightarrow> string \<Rightarrow> person_info \<Rightarrow> tags \<times> event list" where
  "get_interests_from_profile w k profile_text info =
     (let call = CompleteCall (build_prompt (take 2000 profile_text) info)
      in case classify_body w k profile_text info of
           Inr interests \<Rightarrow> (interests, [call])
         | Inl e \<Rightarrow>
             (sentinel_tags,
              [call, Error (''Error getting interests for '' @ cell_str (first_name info) @ '' '' @
                            cell_str (last_name info) @ '': '') (Some e)]))"

section \<open>The profile resolver (\<open>serpapi_method.py\<close>)\<close>

text \<open>Line 98: \<open>url.split('/in/')[-1].split('/')[0]\<close>; a split is never empty.\<close>

definition profile_id_of :: "string \<Rightarrow> string" where
  "profile_id_of url = hd (py_split ''/'' (last (py_split ''/in/'' url)))"

definition query_of :: "string \<Rightarrow> string" where
  "query_of profile_id = ''site:linkedin.com/in/'' @ profile_id"

text \<open>Lines 130 to 137: what one search result adds to \<open>profile_info\<close>.\<close>

definition result_fields :: "string \<Rightarrow> json \<Rightarrow> exn + json list" where
  "result_fields profile_id result =
     bindE (py_in ''title'' result) (\<lambda>has_title.
     bindE (if has_title then bindE (py_getitem result ''title'') (\<lambda>t. Inr [t]) else Inr []) (\<lambda>ts.
     bindE (py_in ''snippet'' result) (\<lambda>has_snippet.
     bindE (if has_snippet then bindE (py_getitem result ''snippet'') (\<lambda>t. Inr [t]) else Inr []) (\<lambda>ss.
     bindE (py_in ''link'' result) (\<lambda>has_link.
     bindE (if has_link then bindE (py_getitem result ''link'') (py_in profile_id) else Inr False) (\<lambda>main.
       if main then
         bindE (py_in ''about_this_result'' result) (\<lambda>has_about.
           if has_about then
             bindE (py_getitem result ''about_this_result'') (\<lambda>about.
             bindE (py_get about ''description'' (JStr [])) (\<lambda>d. Inr (ts @ ss @ [d])))
           else Inr (ts @ ss))
       else Inr (ts @ ss)))))))"

fun collect_info :: "string \<Rightarrow> json list \<Rightarrow> exn + json list" where
  "collect_info profile_id [] = Inr []"
| "collect_info profile_id (result # results) =
     bindE (result_fields profile_id result) (\<lambda>xs.
     bindE (collect_info profile_id results) (\<lambda>ys. Inr (xs @ ys)))"

text \<open>Lines 126 to 137.\<close>

definition extract_profile_info :: "string \<Rightarrow> json \<Rightarrow> exn + json list" where
  "extract_profile_info profile_id data =
     bindE (py_in ''organic_results'' data) (\<lambda>has_results.
       if has_results then
         bindE (py_getitem data ''organic_results'') (\<lambda>results.
         bindE (py_iter results) (collect_info profile_id))
       else Inr [])"

text \<open>
  Lines 121 to 144, for a response that is not a 429: \<open>raise_for_status\<close> raises on a
  status from 400 to 599; the result is the snippet and what is logged on the way.
\<close>

definition read_response :: "string \<Rightarrow> nat \<Rightarrow> exn + json \<Rightarrow> exn + string \<times> event list" where
  "read_response profile_id status body =
     (if 400 \<le> status \<and> status < 600 then Inl (HTTPError status)
      else
        bindE body (\<lambda>data.
        bindE (extract_profile_info profile_id data) (\<lambda>profile_info.
          if profile_info \<noteq> [] then
            bindE (py_join_values '' '' profile_info) (\<lambda>s. Inr (strip s, []))
          else Inr ([], [Warning ''No profile information found in search results'']))))"

definition resolver_error :: "exn \<Rightarrow> event" where
  "resolver_error e = Error ''Error getting profile data from SerpAPI: '' (Some e)"

definition rate_limited :: "string \<Rightarrow> event list" where
  "rate_limited q = [SearchCall q, Warning ''Rate limit reached. Waiting before retry...'', Sleep 60]"

text \<open>
  Lines 96 to 148 for a \<open>str\<close> url. \<open>k\<close> counts the requests the search capability has
  answered; the result is the snippet, the new count and the events. The retry of line
  119 is a recursive call inside the \<open>try\<close> of line 96, with no count of its own: what
  ends a run of 429 answers is the interpreter's recursion limit, whose
  \<open>RecursionError\<close> the handler of line 146 catches like any other exception. \<open>d\<close> is
  the number of nested calls that can still run. Where within a call the limit strikes
  depends on the interpreter and the libraries; here the call for which no room is left
  fails before it sends a request, and its handler logs the error.
\<close>

fun fetch :: "world \<Rightarrow> nat \<Rightarrow> string \<Rightarrow> nat \<Rightarrow> string \<times> nat \<times> event list" where
  "fetch w 0 url k = ([], k, [resolver_error RecursionError])"
| "fetch w (Suc d) url k =
     (case search_api w k (query_of (profile_id_of url)) of
        SearchRaised e \<Rightarrow>
          ([], Suc k, [SearchCall (query_of (profile_id_of url)), resolver_error e])
      | Response status body \<Rightarrow>
          if status = 429 then
            (let r = fetch w d url (Suc k)
             in (fst r, fst (snd r), rate_limited (query_of (profile_id_of url)) @ snd (snd r)))
          else
            (case read_response (profile_id_of url) status body of
               Inl e \<Rightarrow>
                 ([], Suc k, [SearchCall (query_of (profile_id_of url)), resolver_error e])
             | Inr r \<Rightarrow>
                 (fst r, Suc k, SearchCall (query_of (profile_id_of url)) # snd r)))"

text \<open>A url that is not a \<open>str\<close> has no \<open>split\<close>: line 98 raises, line 146 catches.\<close>

definition get_linkedin_profile_data ::
  "world \<Rightarrow> cell \<Rightarrow> nat \<Rightarrow> string \<times> nat \<times> event list" where
  "get_linkedin_profile_data w url k =
     (case url of
        CStr u \<Rightarrow> fetch w (depth w) u k
      | CNonStr r \<Rightarrow> ([], k, [resolver_error AttributeError]))"

section \<open>The enrichment pipeline (\<open>serpapi_method.py\<close>)\<close>

text \<open>Line 181, \<open>', '.join(interests)\<close>: on a \<open>str\<close> the join runs over its characters.\<close>

fun join_tags :: "tags \<Rightarrow> exn + string" where
  "join_tags (TagList xs) = py_join_values '', '' xs"
| "join_tags (TagStr s) = Inr (py_join '', '' (map (\<lambda>c. [c]) s))"

text \<open>
  What one pass of the loop body returns: the exception that left it, if any, the table
  and the state. Writing the output file is taken to succeed.
\<close>

type_synonym run = "exn option \<times> table \<times> state"

text \<open>Lines 169 to 187: the branch for a snippet that is not empty.\<close>

definition classify_row ::
  "world \<Rightarrow> string \<Rightarrow> nat \<Rightarrow> cell \<Rightarrow> cell \<Rightarrow> string \<Rightarrow> table \<Rightarrow> state \<Rightarrow> run" where
  "classify_row w output_file i fn ln profile_text df st =
     (case row_get df (rows df ! i) ''Company'' of
        Inl e \<Rightarrow> (Some e, df, st)
      | Inr co \<Rightarrow>
     (case row_get df (rows df ! i) ''Position'' of
        Inl e \<Rightarrow> (Some e, df, st)
      | Inr po \<Rightarrow>
          (let person = \<lparr>first_name = fn, last_name = ln, company = co, position = po\<rparr>;
               r = get_interests_from_profile w (completions st) profile_text person;
               st1 = emit (snd r) (st\<lparr>completions := Suc (completions st)\<rparr>)
           in (case join_tags (fst r) of
                 Inl e \<Rightarrow> (Some e, df, st1)
               | Inr joined \<Rightarrow>
                   (case set_at df i ''Interests'' joined of
                      Inl e \<Rightarrow> (Some e, df, st1)
                    | Inr df1 \<Rightarrow>
                        (let st2 = emit [Save output_file df1]
                                     (st1\<lparr>files := (files st1)(output_file \<mapsto> df1)\<rparr>)
                         in (None, df1, emit [Sleep 2] st2)))))))"

text \<open>Lines 188 to 190: the branch for an empty snippet.\<close>

definition skip_row :: "nat \<Rightarrow> string \<Rightarrow> table \<Rightarrow> state \<Rightarrow> run" where
  "skip_row i name df st =
     (let st1 = emit [Warning (''Could not fetch profile content for '' @ name)] st
      in (case set_at df i ''Interests'' sentinel of
            Inl e \<Rightarrow> (Some e, df, st1)
          | Inr df1 \<Rightarrow> (None, df1, st1)))"

text \<open>
  Lines 163 to 190, the loop body for the row at position \<open>i\<close>. The loop reads only
  cells it never writes, so reading them from the current table is reading them from the
  rows \<open>iterrows\<close> hands out.
\<close>

definition process_row :: "world \<Rightarrow> string \<Rightarrow> nat \<Rightarrow> table \<Rightarrow> state \<Rightarrow> run" where
  "process_row w output_file i df st =
     (case row_get df (rows df ! i) ''First Name'' of
        Inl e \<Rightarrow> (Some e, df, st)
      | Inr fn \<Rightarrow>
     (case row_get df (rows df ! i) ''Last Name'' of
        Inl e \<Rightarrow> (Some e, df, st)
      | Inr ln \<Rightarrow>
          (let name = cell_str fn @ '' '' @ cell_str ln;
               st1 = emit [Info (''Processing profile for '' @ name)] st
           in (case row_get df (rows df ! i) ''URL'' of
                 Inl e \<Rightarrow> (Some e, df, st1)
               | Inr url \<Rightarrow>
                   (let r = get_linkedin_profile_data w url (searches st1);
                        st2 = emit (snd (snd r)) (st1\<lparr>searches := fst (snd r)\<rparr>)
                    in (if fst r \<noteq> []
                        then classify_row w output_file i fn ln (fst r) df st2
                        else skip_row i name df st2))))))"

text \<open>Line 162: the loop, over the positions of the rows; an exception leaves it.\<close>

fun rows_loop :: "world \<Rightarrow> string \<Rightarrow> nat list \<Rightarrow> table \<Rightarrow> state \<Rightarrow> run" where
  "rows_loop w output_file [] df st = (None, df, st)"
| "rows_loop w output_file (i # is) df st =
     (let r = process_row w output_file i df st
      in (case fst r of
            Some e \<Rightarrow> r
          | None \<Rightarrow> rows_loop w output_file is (fst (snd r)) (snd (snd r))))"

text \<open>Lines 150 to 196.\<close>

definition process_profiles :: "world \<Rightarrow> table \<Rightarrow> string \<Rightarrow> state \<Rightarrow> run" where
  "process_profiles w df output_file st =
     (let df1 = (if ''Interests'' \<notin> set (columns df) then add_column df ''Interests'' (CStr []) else df);
          st1 = emit [Info (''Processing '' @ str_nat (length (rows df1)) @ '' profiles'')] st;
          r = rows_loop w output_file [0..<length (rows df1)] df1 st1
      in (case fst r of
            Some e \<Rightarrow>
              (Some e, fst (snd r),
               emit [Error ''Error processing profiles with SerpAPI: '' (Some e)] (snd (snd r)))
          | None \<Rightarrow>
              (None, fst (snd r),
               emit [Info ''SerpAPI processing completed successfully''] (snd (snd r)))))"

section \<open>The entry point (\<open>linkedin_tagger.py\<close>)\<close>

text \<open>
  What \<open>main\<close> reads from outside: the two credentials (\<open>os.getenv\<close>), the line typed
  at the prompt, which paths exist, and what \<open>pd.read_csv(path, skiprows=n)\<close> returns.
\<close>

record env =
  openai_key :: "string option"
  serpapi_key :: "string option"
  typed :: string
  path_exists :: "string \<Rightarrow> bool"
  read_csv :: "string \<Rightarrow> nat \<Rightarrow> exn + table"

text \<open>\<open>not os.getenv(..)\<close> holds for an unset and for an empty variable.\<close>

fun unset :: "string option \<Rightarrow> bool" where
  "unset None = True"
| "unset (Some s) = (s = [])"

text \<open>Lines 87 to 97.\<close>

definition required_columns :: "string list" where
  "required_columns = [''First Name'', ''Last Name'', ''Company'', ''Position'']"

definition validate_csv_structure :: "table \<Rightarrow> bool \<times> event list" where
  "validate_csv_structure df =
     (let missing_columns = filter (\<lambda>col. col \<notin> set (columns df)) required_columns
      in if missing_columns \<noteq> []
         then (False, [Error (''CSV is missing required columns: '' @ py_join '', '' missing_columns)
                         None])
         else (True, []))"

text \<open>
  Lines 109 to 110 and 115 to 116: \<open>df.iloc[0]\<close> raises on a table with no row; the row
  looks like a note when it has fewer than four cells or a cell mentions \<open>note\<close>.
\<close>

definition first_row :: "table \<Rightarrow> exn + cell list" where
  "first_row df = (case rows df of [] \<Rightarrow> Inl IndexError | r # rs \<Rightarrow> Inr r)"

definition looks_like_notes :: "cell list \<Rightarrow> bool" where
  "looks_like_notes r =
     (length r < 4 \<or> list_ex (\<lambda>val. py_contains ''note'' (lower (cell_str val))) r)"

text \<open>Lines 103 to 120, the body of the \<open>try\<close>; the handler logs and raises again.\<close>

definition read_linkedin_csv_body :: "env \<Rightarrow> string \<Rightarrow> exn + table" where
  "read_linkedin_csv_body en file_path =
     bindE (read_csv en file_path 0) (\<lambda>df.
     bindE (first_row df) (\<lambda>r0.
       if looks_like_notes r0 then
         bindE (read_csv en file_path 1) (\<lambda>df1.
         bindE (first_row df1) (\<lambda>r1.
           if looks_like_notes r1 then read_csv en file_path 2 else Inr df1))
       else Inr df))"

definition read_linkedin_csv :: "env \<Rightarrow> string \<Rightarrow> (exn + table) \<times> event list" where
  "read_linkedin_csv en file_path =
     (case read_linkedin_csv_body en file_path of
        Inl e \<Rightarrow> (Inl e, [Error ''Error reading CSV file: '' (Some e)])
      | Inr df \<Rightarrow> (Inr df, []))"

definition output_name :: string where
  "output_name = ''linkedin_connections_with_interests.csv''"

text \<open>
  Lines 126 to 155. The result is the exception that ends the program, if any, and the
  state.
\<close>

definition main :: "world \<Rightarrow> env \<Rightarrow> state \<Rightarrow> exn option \<times> state" where
  "main w en st =
     (if unset (openai_key en) then
        (Some (ValueError ''OpenAI API key not found. Please set it in your .env file.''), st)
      else if unset (serpapi_key en) then
        (Some (ValueError ''SerpAPI key not found. Please set it in your .env file.''), st)
      else
        (let input_file = strip_chars [CHR 0x27, CHR 0x22] (strip (typed en))
         in if \<not> path_exists en input_file then
              (Some (FileNotFoundError (''File not found: '' @ input_file)), st)
            else
              (case read_linkedin_csv en input_file of
                 (Inl e, evs) \<Rightarrow> (Some e, emit evs st)
               | (Inr df, evs) \<Rightarrow>
                   (let v = validate_csv_structure df;
                        st1 = emit (snd v) (emit evs st)
                    in if \<not> fst v then
                         (Some (ValueError ''Invalid CSV structure. Please ensure your CSV contains the required columns: First Name, Last Name, Company, Position''), st1)
                       else
                         (let st2 = emit [Info ''Processing first 5 profiles using SerpAPI method''] st1;
                              r = process_profiles w (head 5 df) output_name st2
                          in (case fst r of
                                Some e \<Rightarrow> (Some e, snd (snd r))
                              | None \<Rightarrow>
                                  (None,
                                   emit [Info (''Process completed. Results saved to '' @ output_name)]
                                     (snd (snd r)))))))))"

section \<open>Stub capabilities and sample inputs\<close>

text \<open>
  Stubs in the sense of the specification's scenarios: a search capability that answers
  the \<open>k\<close>-th request with \<open>s k\<close> whatever the query (\<open>always r\<close> answers \<open>r\<close> every
  time), a completion capability that always answers \<open>c\<close>, a \<open>json.loads\<close> that knows
  one text, and room for 1000 nested calls of the resolver.
\<close>

definition stub :: "(nat \<Rightarrow> search_outcome) \<Rightarrow> completion_outcome \<Rightarrow> (string \<Rightarrow> exn + json) \<Rightarrow> world" where
  "stub s c l = \<lparr>search_api = (\<lambda>k q. s k), completion_api = (\<lambda>k p. c), loads = l, depth = 1000\<rparr>"

definition always :: "search_outcome \<Rightarrow> nat \<Rightarrow> search_outcome" where
  "always r k = r"

definition loads_as :: "string \<Rightarrow> json \<Rightarrow> string \<Rightarrow> exn + json" where
  "loads_as txt v t = (if t = txt then Inr v else Inl JSONDecodeError)"

definition not_json :: "string \<Rightarrow> exn + json" where
  "not_json t = Inl JSONDecodeError"

definition ada_snippet :: string where
  "ada_snippet = ''Ada Lovelace mathematician pioneering computing''"

definition found :: search_outcome where
  "found = Response 200 (Inr (JObj [(''organic_results'', JArr [JObj [(''title'', JStr ada_snippet)]])]))"

definition nothing_found :: search_outcome where
  "nothing_found = Response 200 (Inr (JObj []))"

definition too_many_requests :: search_outcome where
  "too_many_requests = Response 429 (Inl JSONDecodeError)"

text \<open>A search capability that answers the first \<open>n\<close> requests with 429 and every later one with Ada's result.\<close>

definition limited_first :: "nat \<Rightarrow> nat \<Rightarrow> search_outcome" where
  "limited_first n k = (if k < n then too_many_requests else found)"

definition ada_url :: string where
  "ada_url = ''https://linkedin.com/in/adalovelace''"

definition ada_table :: table where
  "ada_table =
     \<lparr>columns = [''First Name'', ''Last Name'', ''Company'', ''Position'', ''URL''],
      rows = [[CStr ''Ada'', CStr ''Lovelace'', CStr ''Analytical Engines'', CStr ''Mathematician'',
               CStr ada_url]], non_text = []\<rparr>"

definition ada :: person_info where
  "ada = \<lparr>first_name = CStr ''Ada'', last_name = CStr ''Lovelace'',
          company = CStr ''Analytical Engines'', position = CStr ''Mathematician''\<rparr>"

definition start :: state where
  "start = \<lparr>files = Map.empty, searches = 0, completions = 0, trace = []\<rparr>"

definition twelve_text :: string where
  "twelve_text = ''[\"Strategy\", \"Operations\", \"Entrepreneurship\", \"Leadership\", \"Management\", \"Marketing\", \"Sales\", \"Investing\", \"Economics\", \"Blockchain\", \"Cybersecurity\", \"Networking\"]''"

definition twelve_value :: json where
  "twelve_value = JArr (map JStr [''Strategy'', ''Operations'', ''Entrepreneurship'', ''Leadership'',
     ''Management'', ''Marketing'', ''Sales'', ''Investing'', ''Economics'', ''Blockchain'',
     ''Cybersecurity'', ''Networking''])"

definition pair_text :: string where
  "pair_text = ''{\"interests\": [\"Sales\", \"Leadership\"]}''"

definition pair_value :: json where
  "pair_value = JObj [(''interests'', JArr [JStr ''Sales'', JStr ''Leadership''])]"

definition vague_text :: string where
  "vague_text = ''I cannot tell''"

section \<open>Notions used to state the properties\<close>

text \<open>An answer of the search capability that makes the resolver wait and retry.\<close>

fun is_429 :: "search_outcome \<Rightarrow> bool" where
  "is_429 (Response status body) = (status = 429)"
| "is_429 (SearchRaised e) = False"

text \<open>The events the resolver can add to the trace: requests, log records and the cooldown of 60.\<close>

fun resolver_event :: "event \<Rightarrow> bool" where
  "resolver_event (SearchCall q) = True"
| "resolver_event (Warning m) = True"
| "resolver_event (Error p e) = True"
| "resolver_event (Sleep d) = (d = 60)"
| "resolver_event ev = False"

text \<open>The events a step added to the trace of the state it started in.\<close>

definition new_events :: "state \<Rightarrow> state \<Rightarrow> event list" where
  "new_events st st' = drop (length (trace st)) (trace st')"

text \<open>What is observed of a run of the pipeline: the exception that ended it, the table
  in memory, the trace, and the content of a file.\<close>

definition raised :: "run \<Rightarrow> exn option" where
  "raised r = fst r"

definition final_table :: "run \<Rightarrow> table" where
  "final_table r = fst (snd r)"

definition final_trace :: "run \<Rightarrow> event list" where
  "final_trace r = trace (snd (snd r))"

definition saved_table :: "string \<Rightarrow> run \<Rightarrow> table option" where
  "saved_table f r = files (snd (snd r)) f"

text \<open>More answers of a stub completion capability, with what \<open>json.loads\<close> makes of them.\<close>

definition ones_text :: string where
  "ones_text = ''{\"interests\": [1]}''"

definition ones_value :: json where
  "ones_value = JObj [(''interests'', JArr [JNum ''1''])]"

definition weaving_text :: string where
  "weaving_text = ''{\"interests\": [\"Underwater Basket Weaving\"]}''"

definition weaving_value :: json where
  "weaving_value = JObj [(''interests'', JArr [JStr ''Underwater Basket Weaving''])]"

text \<open>What is observed of a run of \<open>main\<close>, and an environment for it: both credentials
  set, a path that exists, and a file that reads as the given table.\<close>

definition ended :: "exn option \<times> state \<Rightarrow> exn option" where
  "ended r = fst r"

definition main_trace :: "exn option \<times> state \<Rightarrow> event list" where
  "main_trace r = trace (snd r)"

definition no_url_table :: table where
  "no_url_table =
     \<lparr>columns = [''First Name'', ''Last Name'', ''Company'', ''Position''],
      rows = [[CStr ''Ada'', CStr ''Lovelace'', CStr ''Analytical Engines'', CStr ''Mathematician'']], non_text = []\<rparr>"

definition exists_always :: "string \<Rightarrow> bool" where
  "exists_always p = True"

definition reads :: "table \<Rightarrow> string \<Rightarrow> nat \<Rightarrow> exn + table" where
  "reads df p n = Inr df"

definition env_reading :: "table \<Rightarrow> env" where
  "env_reading df =
     \<lparr>openai_key = Some ''sk-test'', serpapi_key = Some ''serp-test'', typed = ''connections.csv'',
      path_exists = exists_always, read_csv = reads df\<rparr>"

definition person_row :: "string \<Rightarrow> cell list" where
  "person_row n = [CStr n, CStr ''Doe'', CStr ''ACME'', CStr ''Engineer'', CStr (''https://linkedin.com/in/'' @ n)]"

definition six_table :: table where
  "six_table =
     \<lparr>columns = [''First Name'', ''Last Name'', ''Company'', ''Position'', ''URL''],
      rows = map person_row [''ann'', ''bob'', ''cy'', ''dee'', ''eve'', ''flo''], non_text = []\<rparr>"

text \<open>The environment \<open>en\<close> with every table it reads cut to its first five rows, and a
  summary of a run of \<open>main\<close>: how it ended and the rows of the output file.\<close>

definition cut_to_five :: "env \<Rightarrow> env" where
  "cut_to_five en = en\<lparr>read_csv := \<lambda>p n. map_sum id (head 5) (read_csv en p n)\<rparr>"

definition main_summary :: "exn option \<times> state \<Rightarrow> exn option \<times> cell list list option" where
  "main_summary r = (fst r, map_option rows (files (snd r) output_name))"

text \<open>
  Deterministic stub capabilities: the answer to a request depends on the request only,
  not on how many requests came before. \<open>merge st d\<close> is the state \<open>st\<close> followed by
  what a run that started from nothing left in \<open>d\<close>; \<open>after st r\<close> is the result \<open>r\<close> of
  such a run, seen from \<open>st\<close>. \<open>later\<close> is a state in which both capabilities have
  already answered requests.
\<close>

definition deterministic :: "world \<Rightarrow> bool" where
  "deterministic w =
     ((\<forall>k q. search_api w k q = search_api w 0 q) \<and> (\<forall>k p. completion_api w k p = completion_api w 0 p))"

definition merge :: "state \<Rightarrow> state \<Rightarrow> state" where
  "merge st d =
     \<lparr>files = files st ++ files d, searches = searches st + searches d,
      completions = completions st + completions d, trace = trace st @ trace d\<rparr>"

definition after :: "state \<Rightarrow> run \<Rightarrow> run" where
  "after st r = (fst r, fst (snd r), merge st (snd (snd r)))"

definition later :: state where
  "later = start\<lparr>searches := 7, completions := 3\<rparr>"

text \<open>
  The words of the specification for the fallback scan, a label that "textually appears
  (case-insensitive)" in the answer, written without the code's \<open>lower\<close>: two characters
  are the same letter when they are equal or one is the capital of the other (a capital
  letter has a code from 65 to 90, from 192 to 214 or from 216 to 222, and its small
  letter the code 32 higher), and a label appears in a text when some contiguous piece of
  the text is the label letter for letter.
\<close>

definition is_upper_code :: "nat \<Rightarrow> bool" where
  "is_upper_code n = ((65 \<le> n \<and> n \<le> 90) \<or> (192 \<le> n \<and> n \<le> 214) \<or> (216 \<le> n \<and> n \<le> 222))"

definition same_letter :: "char \<Rightarrow> char \<Rightarrow> bool" where
  "same_letter c d =
     (let m = (of_char c :: nat); n = (of_char d :: nat)
      in m = n \<or> (is_upper_code m \<and> n = m + 32) \<or> (is_upper_code n \<and> m = n + 32))"

definition appears_ignoring_case :: "string \<Rightarrow> string \<Rightarrow> bool" where
  "appears_ignoring_case label txt =
     (\<exists>before piece rest. txt = before @ piece @ rest \<and> list_all2 same_letter piece label)"

text \<open>An answer that is not JSON and names two labels in other case and in the reverse of
  their order in the Taxonomy.\<close>

definition shout_text :: string where
  "shout_text = ''SALES and leadership''"

text \<open>Ada's table as a file that already has a column Interests with its one field empty:
  \<open>read_csv\<close> makes the field NaN and the column numeric.\<close>

definition empty_interests_table :: table where
  "empty_interests_table =
     \<lparr>columns = [''First Name'', ''Last Name'', ''Company'', ''Position'', ''URL'', ''Interests''],
      rows = [[CStr ''Ada'', CStr ''Lovelace'', CStr ''Analytical Engines'', CStr ''Mathematician'',
               CStr ada_url, CNonStr ''nan'']],
      non_text = [''Interests'']\<rparr>"

section \<open>Properties\<close>

subsection \<open>Auxiliary facts\<close>

lemma bindE_Inl [simp]: "bindE (Inl e) f = Inl e"
  by (simp add: bindE_def)

lemma bindE_Inr [simp]: "bindE (Inr x) f = f x"
  by (simp add: bindE_def)

lemma bindE_eq_Inr: "bindE m f = Inr y \<longleftrightarrow> (\<exists>x. m = Inr x \<and> f x = Inr y)"
  by (cases m) simp_all

text \<open>The model of \<open>in\<close> on strings is the usual notion of a contiguous sublist, and a split
  always has a first and a last piece.\<close>

lemma py_contains_sublist: "py_contains sub s \<longleftrightarrow> sublist sub s"
  by (induction s) (simp_all add: sublist_Cons_right)

lemma split_from_nonempty: "split_from sep cur s \<noteq> []"
  by (induction sep cur s rule: split_from.induct) simp_all

lemma slice10_len: "slice10 v = Inr r \<Longrightarrow> tags_len r \<le> 10"
  by (cases v) auto

lemma classify_body_len: "classify_body w k t info = Inr r \<Longrightarrow> tags_len r \<le> 10"
  by (auto simp: classify_body_def bindE_eq_Inr slice10_len
           split: completion_outcome.splits option.splits)

subsection \<open>The classifier\<close>

text \<open>
  C8. Whatever the completion capability answers and whichever way the answer is read
  (the \<open>interests\<close> field, a plain JSON list, the scan of the raw text, or the handler
  of a failure), what the classifier returns has at most 10 entries.
\<close>

theorem classifier_returns_at_most_ten:
  "tags_len (fst (get_interests_from_profile w k profile_text info)) \<le> 10"
  by (auto simp: get_interests_from_profile_def Let_def sentinel_tags_def classify_body_len
           split: sum.splits)

theorem classifier_returns_at_most_ten_witness:
  "fst (get_interests_from_profile
          (stub (always found) (Content (Some twelve_text)) (loads_as twelve_text twelve_value))
          0 ada_snippet ada)
     = TagList (map JStr [''Strategy'', ''Operations'', ''Entrepreneurship'', ''Leadership'',
         ''Management'', ''Marketing'', ''Sales'', ''Investing'', ''Economics'', ''Blockchain''])
   \<and> tags_len (fst (get_interests_from_profile
          (stub (always found) (Content (Some twelve_text)) (loads_as twelve_text twelve_value))
          0 ada_snippet ada)) \<le> 10"
  using classifier_returns_at_most_ten
    [of "stub (always found) (Content (Some twelve_text)) (loads_as twelve_text twelve_value)"
        0 ada_snippet ada]
  by (simp add: get_interests_from_profile_def classify_body_def stub_def loads_as_def
        parse_interests_def try_json_def twelve_value_def)

lemma scan_shout: "scan_taxonomy shout_text = [''Leadership'', ''Sales'']"
  by code_simp

lemma scan_vague: "scan_taxonomy vague_text = []"
  by code_simp

text \<open>
  The scan of line 81 compares the lower-cased label with the lower-cased answer. The
  tables of \<open>lower\<close> hold exactly the capital letters and, place for place, the letters
  32 codes higher; so two characters have the same lower case exactly when they are the
  same letter, and the scan finds a label exactly when it appears in the answer, letter
  for letter, whatever the case.
\<close>

lemma upper_codes: "map of_char upper_chars = ([65..<91] @ [192..<215] @ [216..<223] :: nat list)"
  by code_simp

lemma lower_codes:
  "map of_char lower_chars = map (\<lambda>n. n + 32) ([65..<91] @ [192..<215] @ [216..<223] :: nat list)"
  by code_simp

lemma upper_chars_iff: "c \<in> set upper_chars \<longleftrightarrow> is_upper_code (of_char c)"
proof -
  have "c \<in> set upper_chars \<longleftrightarrow> (of_char c :: nat) \<in> of_char ` set upper_chars"
    by (auto simp: image_iff)
  also have "of_char ` set upper_chars = set (map of_char upper_chars :: nat list)" by simp
  also have "(of_char c :: nat) \<in> set (map of_char upper_chars) \<longleftrightarrow> is_upper_code (of_char c)"
    unfolding upper_codes
    by (simp only: set_append set_upt Un_iff atLeastLessThan_iff is_upper_code_def) arith
  finally show ?thesis .
qed

lemma distinct_upper_chars: "distinct upper_chars"
proof -
  have "distinct (map of_char upper_chars :: nat list)"
    unfolding upper_codes
    by (simp only: distinct_append distinct_upt set_upt set_append) auto
  then show ?thesis by (simp add: distinct_map)
qed

lemma length_case_tables: "length upper_chars = length lower_chars"
  using arg_cong[OF upper_codes, of length] arg_cong[OF lower_codes, of length] by simp

lemma lower_char_code:
  "(of_char (lower_char c) :: nat) = (if is_upper_code (of_char c) then of_char c + 32 else of_char c)"
proof (cases "c \<in> set upper_chars")
  case False
  then have "map_of (zip upper_chars lower_chars) c = None"
    using map_fst_zip[OF length_case_tables]
    by (metis map_of_eq_None_iff set_map)
  with False show ?thesis by (simp add: lower_char_def upper_chars_iff)
next
  case True
  then obtain i where i: "i < length upper_chars" and c: "upper_chars ! i = c"
    by (auto simp: in_set_conv_nth)
  from i have il: "i < length lower_chars" by (simp add: length_case_tables)
  have "map_of (zip upper_chars lower_chars) (upper_chars ! i) = Some (lower_chars ! i)"
    by (rule map_of_zip_nth[OF length_case_tables distinct_upper_chars il])
  then have lc: "lower_char c = lower_chars ! i" by (simp add: lower_char_def c)
  have "(of_char (lower_chars ! i) :: nat) = (map of_char lower_chars) ! i"
    using il by simp
  also have "\<dots> = (map of_char upper_chars) ! i + 32"
    unfolding lower_codes upper_codes[symmetric]
    using i by (simp add: upper_codes[symmetric] del: upt_Suc)
  also have "\<dots> = of_char c + 32" using i c by simp
  finally show ?thesis using True lc by (simp add: upper_chars_iff)
qed

lemma lower_char_eq_iff: "lower_char a = lower_char b \<longleftrightarrow> same_letter a b"
proof -
  have "lower_char a = lower_char b \<longleftrightarrow> (of_char (lower_char a) :: nat) = of_char (lower_char b)"
    by simp
  also have "\<dots> \<longleftrightarrow> same_letter a b"
    unfolding lower_char_code same_letter_def Let_def is_upper_code_def by auto
  finally show ?thesis .
qed

lemma lower_eq_iff: "lower xs = lower ys \<longleftrightarrow> list_all2 same_letter xs ys"
proof -
  have "lower xs = lower ys \<longleftrightarrow> list_all2 (=) (map lower_char xs) (map lower_char ys)"
    by (simp add: lower_def list.rel_eq)
  also have "\<dots> \<longleftrightarrow> list_all2 (\<lambda>a b. lower_char a = lower_char b) xs ys"
    by (simp add: list.rel_map)
  finally show ?thesis by (simp add: lower_char_eq_iff)
qed

lemma scan_is_case_insensitive:
  "py_contains (lower label) (lower txt) \<longleftrightarrow> appears_ignoring_case label txt"
proof
  assume "py_contains (lower label) (lower txt)"
  then obtain ps ss where "lower txt = ps @ lower label @ ss"
    by (auto simp: py_contains_sublist sublist_def)
  then obtain before piece rest where "txt = before @ piece @ rest" and "lower piece = lower label"
    by (auto simp: lower_def map_eq_append_conv append_eq_map_conv)
  then show "appears_ignoring_case label txt"
    by (auto simp: appears_ignoring_case_def lower_eq_iff)
next
  assume "appears_ignoring_case label txt"
  then obtain before piece rest where t: "txt = before @ piece @ rest" and "lower piece = lower label"
    by (auto simp: appears_ignoring_case_def lower_eq_iff)
  then have "lower txt = lower before @ lower label @ lower rest"
    by (simp add: lower_def)
  then show "py_contains (lower label) (lower txt)"
    by (auto simp: py_contains_sublist sublist_def)
qed

lemma scan_taxonomy_words:
  "scan_taxonomy txt = filter (\<lambda>label. appears_ignoring_case label txt) INTERESTS"
  by (simp add: scan_taxonomy_def scan_is_case_insensitive)

lemma distinct_INTERESTS: "distinct INTERESTS"
  unfolding INTERESTS_def by simp

lemma scan_taxonomy_subset: "set (scan_taxonomy txt) \<subseteq> set INTERESTS"
  by (auto simp: scan_taxonomy_def)

lemma scan_taxonomy_distinct: "distinct (scan_taxonomy txt)"
  by (simp add: scan_taxonomy_def distinct_INTERESTS)

lemma try_json_field:
  "ld txt = Inr (JObj kvs) \<Longrightarrow> map_of kvs ''interests'' = Some v \<Longrightarrow> try_json ld txt = Inr v"
  by (auto simp: try_json_def map_of_eq_None_iff[symmetric] simp del: map_of_eq_None_iff)

lemma try_json_list: "ld txt = Inr (JArr xs) \<Longrightarrow> try_json ld txt = Inr (JArr xs)"
  by (simp add: try_json_def)

lemma try_json_undecodable: "ld txt = Inl e \<Longrightarrow> try_json ld txt = Inl e"
  by (simp add: try_json_def)

lemma get_interests_parsed:
  "completion_api w k (build_prompt (take 2000 t) info) = Content (Some txt) \<Longrightarrow>
   parse_interests (loads w) txt = Inr (JArr xs) \<Longrightarrow>
   fst (get_interests_from_profile w k t info) = TagList (take 10 xs)"
  by (simp add: get_interests_from_profile_def classify_body_def)

text \<open>
  C9. When the request to the completion capability raises, or anything raises while its
  answer is handled (no content to parse, \<open>json.loads\<close> failing with something other
  than \<open>JSONDecodeError\<close>, a parsed value that cannot be sliced), so that the body of
  the outer \<open>try\<close> ends in an exception \<open>e\<close>, the classifier logs the error with the
  subject's first and last name and returns exactly the sentinel Tag Set. The classifier
  returns a value in every case: nothing propagates to the pipeline. (A text that is not
  JSON is not a failure of the capability; it is read by the scan of C6.)
\<close>

theorem classifier_failure_gives_sentinel:
  assumes "completion_api w k (build_prompt (take 2000 profile_text) info) = CompletionRaised e
           \<or> classify_body w k profile_text info = Inl e"
  shows "get_interests_from_profile w k profile_text info =
           (TagList [JStr ''Profile inaccessible''],
            [CompleteCall (build_prompt (take 2000 profile_text) info),
             Error (''Error getting interests for '' @ cell_str (first_name info) @ '' '' @
                    cell_str (last_name info) @ '': '') (Some e)])"
proof -
  from assms have "classify_body w k profile_text info = Inl e"
    by (auto simp: classify_body_def)
  then show ?thesis
    by (simp add: get_interests_from_profile_def sentinel_tags_def sentinel_def)
qed

theorem classifier_failure_gives_sentinel_witness:
  "get_interests_from_profile (stub (always found) (CompletionRaised (Raised ''Connection error.'')) not_json)
       0 ada_snippet ada =
     (TagList [JStr ''Profile inaccessible''],
      [CompleteCall (build_prompt (take 2000 ada_snippet) ada),
       Error ''Error getting interests for Ada Lovelace: '' (Some (Raised ''Connection error.''))])"
  using classifier_failure_gives_sentinel
    [of "stub (always found) (CompletionRaised (Raised ''Connection error.'')) not_json" 0 ada_snippet ada
        "Raised ''Connection error.''"]
  by (simp add: stub_def ada_def)

text \<open>
  C6. How the classifier reads the answer \<open>txt\<close> of the completion capability, in this
  order: (1) a JSON object with an \<open>interests\<close> field holding a list of strings gives
  that list; (2) a JSON list of strings gives that list; (3) a text that is not JSON is
  scanned for every Taxonomy label without regard to case (a label is taken when some
  piece of the text is the label letter for letter, a capital and its small letter being
  the same letter), and the labels found are collected in the order of the Taxonomy, not
  in the order in which the text names them; (4) when the scan finds none, the result is
  the sentinel. What is returned is the first 10 entries of the sequence so derived (C8).
\<close>

theorem classifier_parse_order:
  assumes "completion_api w k (build_prompt (take 2000 profile_text) info) = Content (Some txt)"
  shows "(loads w txt = Inr (JObj kvs) \<and> map_of kvs ''interests'' = Some (JArr (map JStr xs))
            \<longrightarrow> fst (get_interests_from_profile w k profile_text info) = TagList (map JStr (take 10 xs)))
       \<and> (loads w txt = Inr (JArr (map JStr ys))
            \<longrightarrow> fst (get_interests_from_profile w k profile_text info) = TagList (map JStr (take 10 ys)))
       \<and> (loads w txt = Inl JSONDecodeError
            \<and> filter (\<lambda>label. appears_ignoring_case label txt) INTERESTS \<noteq> []
            \<longrightarrow> fst (get_interests_from_profile w k profile_text info)
                  = TagList (map JStr (take 10 (filter (\<lambda>label. appears_ignoring_case label txt) INTERESTS))))
       \<and> (loads w txt = Inl JSONDecodeError
            \<and> filter (\<lambda>label. appears_ignoring_case label txt) INTERESTS = []
            \<longrightarrow> fst (get_interests_from_profile w k profile_text info) = TagList [JStr ''Profile inaccessible''])"
proof (intro conjI impI)
  assume "loads w txt = Inr (JObj kvs) \<and> map_of kvs ''interests'' = Some (JArr (map JStr xs))"
  then have "parse_interests (loads w) txt = Inr (JArr (map JStr xs))"
    by (simp add: parse_interests_def try_json_field)
  from get_interests_parsed[OF assms this]
  show "fst (get_interests_from_profile w k profile_text info) = TagList (map JStr (take 10 xs))"
    by (simp add: take_map)
next
  assume "loads w txt = Inr (JArr (map JStr ys))"
  then have "parse_interests (loads w) txt = Inr (JArr (map JStr ys))"
    by (simp add: parse_interests_def try_json_list)
  from get_interests_parsed[OF assms this]
  show "fst (get_interests_from_profile w k profile_text info) = TagList (map JStr (take 10 ys))"
    by (simp add: take_map)
next
  let ?found = "filter (\<lambda>label. appears_ignoring_case label txt) INTERESTS"
  assume "loads w txt = Inl JSONDecodeError \<and> ?found \<noteq> []"
  then have "parse_interests (loads w) txt = Inr (JArr (map JStr ?found))"
    by (simp add: parse_interests_def try_json_undecodable fallback_interests_def scan_taxonomy_words)
  from get_interests_parsed[OF assms this]
  show "fst (get_interests_from_profile w k profile_text info) = TagList (map JStr (take 10 ?found))"
    by (simp add: take_map)
next
  let ?found = "filter (\<lambda>label. appears_ignoring_case label txt) INTERESTS"
  assume "loads w txt = Inl JSONDecodeError \<and> ?found = []"
  then have "parse_interests (loads w) txt = Inr (JArr [JStr sentinel])"
    by (simp add: parse_interests_def try_json_undecodable fallback_interests_def scan_taxonomy_words)
  from get_interests_parsed[OF assms this]
  show "fst (get_interests_from_profile w k profile_text info) = TagList [JStr ''Profile inaccessible'']"
    by (simp add: sentinel_def)
qed

theorem classifier_parse_order_witness:
  "fst (get_interests_from_profile (stub (always found) (Content (Some pair_text)) (loads_as pair_text pair_value))
          0 ada_snippet ada) = TagList [JStr ''Sales'', JStr ''Leadership'']
   \<and> fst (get_interests_from_profile (stub (always found) (Content (Some twelve_text)) (loads_as twelve_text twelve_value))
          0 ada_snippet ada)
       = TagList (map JStr [''Strategy'', ''Operations'', ''Entrepreneurship'', ''Leadership'',
           ''Management'', ''Marketing'', ''Sales'', ''Investing'', ''Economics'', ''Blockchain''])
   \<and> fst (get_interests_from_profile (stub (always found) (Content (Some shout_text)) not_json)
          0 ada_snippet ada) = TagList [JStr ''Leadership'', JStr ''Sales'']
   \<and> fst (get_interests_from_profile (stub (always found) (Content (Some vague_text)) not_json)
          0 ada_snippet ada) = TagList [JStr ''Profile inaccessible'']"
proof (intro conjI)
  let ?w1 = "stub (always found) (Content (Some pair_text)) (loads_as pair_text pair_value)"
  have "completion_api ?w1 0 (build_prompt (take 2000 ada_snippet) ada) = Content (Some pair_text)"
    by (simp add: stub_def)
  from classifier_parse_order[OF this, of "[(''interests'', JArr [JStr ''Sales'', JStr ''Leadership''])]"
         "[''Sales'', ''Leadership'']" "[]"]
  show "fst (get_interests_from_profile ?w1 0 ada_snippet ada) = TagList [JStr ''Sales'', JStr ''Leadership'']"
    by (simp add: stub_def loads_as_def pair_value_def)
next
  let ?w2 = "stub (always found) (Content (Some twelve_text)) (loads_as twelve_text twelve_value)"
  have "completion_api ?w2 0 (build_prompt (take 2000 ada_snippet) ada) = Content (Some twelve_text)"
    by (simp add: stub_def)
  from classifier_parse_order[OF this, of "[]" "[]" "[''Strategy'', ''Operations'', ''Entrepreneurship'', ''Leadership'',
           ''Management'', ''Marketing'', ''Sales'', ''Investing'', ''Economics'', ''Blockchain'',
           ''Cybersecurity'', ''Networking'']"]
  show "fst (get_interests_from_profile ?w2 0 ada_snippet ada)
       = TagList (map JStr [''Strategy'', ''Operations'', ''Entrepreneurship'', ''Leadership'',
           ''Management'', ''Marketing'', ''Sales'', ''Investing'', ''Economics'', ''Blockchain''])"
    by (simp add: stub_def loads_as_def twelve_value_def)
next
  let ?w3 = "stub (always found) (Content (Some shout_text)) not_json"
  have "completion_api ?w3 0 (build_prompt (take 2000 ada_snippet) ada) = Content (Some shout_text)"
    by (simp add: stub_def)
  from classifier_parse_order[OF this, of "[]" "[]" "[]"]
  show "fst (get_interests_from_profile ?w3 0 ada_snippet ada) = TagList [JStr ''Leadership'', JStr ''Sales'']"
    using scan_shout by (simp add: stub_def not_json_def scan_taxonomy_words)
next
  let ?w4 = "stub (always found) (Content (Some vague_text)) not_json"
  have "completion_api ?w4 0 (build_prompt (take 2000 ada_snippet) ada) = Content (Some vague_text)"
    by (simp add: stub_def)
  from classifier_parse_order[OF this, of "[]" "[]" "[]"]
  show "fst (get_interests_from_profile ?w4 0 ada_snippet ada) = TagList [JStr ''Profile inaccessible'']"
    using scan_vague by (simp add: stub_def not_json_def scan_taxonomy_words)
qed

subsection \<open>The resolver\<close>

lemma fetch_limited:
  "is_429 (search_api w k (query_of (profile_id_of url))) \<Longrightarrow>
   fetch w (Suc d) url k =
     (fst (fetch w d url (Suc k)), fst (snd (fetch w d url (Suc k))),
      rate_limited (query_of (profile_id_of url)) @ snd (snd (fetch w d url (Suc k))))"
  by (cases "search_api w k (query_of (profile_id_of url))") (simp_all add: Let_def)

lemma fetch_answered:
  "\<not> is_429 (search_api w k (query_of (profile_id_of url))) \<Longrightarrow>
   \<exists>s evs. fetch w (Suc d) url k = (s, Suc k, SearchCall (query_of (profile_id_of url)) # evs)
      \<and> (\<forall>ev \<in> set evs. \<exists>m e. ev = Warning m \<or> ev = Error m e)"
  by (cases "search_api w k (query_of (profile_id_of url))")
     (auto split: sum.splits simp: read_response_def resolver_error_def bindE_def split: if_splits)

lemma fetch_events: "\<forall>ev \<in> set (snd (snd (fetch w d url k))). resolver_event ev"
proof (induction d arbitrary: k)
  case 0
  show ?case by (simp add: resolver_error_def)
next
  case (Suc d)
  show ?case
  proof (cases "is_429 (search_api w k (query_of (profile_id_of url)))")
    case True
    from Suc[of "Suc k"] show ?thesis
      by (simp add: fetch_limited[OF True] rate_limited_def del: fetch.simps)
  next
    case False
    from fetch_answered[OF False, of d] obtain s evs where
      f: "fetch w (Suc d) url k = (s, Suc k, SearchCall (query_of (profile_id_of url)) # evs)"
      and e: "\<forall>ev \<in> set evs. \<exists>m e. ev = Warning m \<or> ev = Error m e"
      by blast
    from e have "\<forall>ev \<in> set evs. resolver_event ev" by fastforce
    with f show ?thesis by (simp del: fetch.simps)
  qed
qed

lemma fetch_count: "fst (snd (fetch w d url k)) \<le> k + d"
proof (induction d arbitrary: k)
  case 0
  show ?case by simp
next
  case (Suc d)
  show ?case
  proof (cases "is_429 (search_api w k (query_of (profile_id_of url)))")
    case True
    from Suc[of "Suc k"] show ?thesis by (simp add: fetch_limited[OF True] del: fetch.simps)
  next
    case False
    from fetch_answered[OF False, of d] show ?thesis by (auto simp del: fetch.simps)
  qed
qed

lemma fetch_after_limits:
  "(\<forall>j<n. is_429 (search_api w (k + j) (query_of (profile_id_of url)))) \<Longrightarrow>
   fetch w (n + d) url k =
     (fst (fetch w d url (k + n)), fst (snd (fetch w d url (k + n))),
      concat (replicate n (rate_limited (query_of (profile_id_of url)))) @ snd (snd (fetch w d url (k + n))))"
proof (induction n arbitrary: k)
  case 0
  show ?case by simp
next
  case (Suc n)
  from Suc.prems have first: "is_429 (search_api w k (query_of (profile_id_of url)))"
    by (metis add.right_neutral zero_less_Suc)
  have "\<forall>j<n. is_429 (search_api w (Suc k + j) (query_of (profile_id_of url)))"
    using Suc.prems by (metis Suc_less_eq add_Suc_shift)
  from Suc.IH[OF this] fetch_limited[OF first, of "n + d"]
  show ?case by (simp del: fetch.simps)
qed

text \<open>
  C3, as the code has it. On a 429 answer the resolver waits 60 time-units and asks again,
  once for every 429 answer it gets; the retries are bounded by the interpreter's
  recursion limit and not by a count of one. When the first \<open>n\<close> answers are 429, the
  next one is not, and \<open>n\<close> nested calls fit under the limit, the resolver returns after
  \<open>n\<close> cooldowns and \<open>n + 1\<close> requests for the same query (one 429 followed by another
  answer gives exactly one retry). When 429 is answered until no call fits any more, the
  \<open>RecursionError\<close> is caught like any failure and the resolver returns the empty
  snippet. The resolver always returns, and it sends at most as many requests as calls
  fit under the limit.
\<close>

theorem resolver_retries_while_limited:
  "((\<forall>j<n. is_429 (search_api w (k + j) (query_of (profile_id_of url))))
      \<and> \<not> is_429 (search_api w (k + n) (query_of (profile_id_of url))) \<and> n < d
     \<longrightarrow> (\<exists>s evs. fetch w d url k =
            (s, Suc (k + n),
             concat (replicate n (rate_limited (query_of (profile_id_of url))))
               @ SearchCall (query_of (profile_id_of url)) # evs)
          \<and> (\<forall>ev \<in> set evs. \<exists>m e. ev = Warning m \<or> ev = Error m e)))
   \<and> ((\<forall>j<d. is_429 (search_api w (k + j) (query_of (profile_id_of url))))
     \<longrightarrow> fetch w d url k =
           ([], k + d,
            concat (replicate d (rate_limited (query_of (profile_id_of url))))
              @ [resolver_error RecursionError]))
   \<and> fst (snd (fetch w d url k)) \<le> k + d"
proof (intro conjI impI)
  assume a: "(\<forall>j<n. is_429 (search_api w (k + j) (query_of (profile_id_of url))))
      \<and> \<not> is_429 (search_api w (k + n) (query_of (profile_id_of url))) \<and> n < d"
  then obtain d' where d: "d = n + Suc d'"
    by (metis less_imp_Suc_add add_Suc_right)
  from fetch_answered[of w "k + n" url d'] a obtain s evs where
    "fetch w (Suc d') url (k + n) = (s, Suc (k + n), SearchCall (query_of (profile_id_of url)) # evs)"
    and "\<forall>ev \<in> set evs. \<exists>m e. ev = Warning m \<or> ev = Error m e"
    by blast
  with fetch_after_limits[of n w k url "Suc d'"] a d
  show "\<exists>s evs. fetch w d url k =
            (s, Suc (k + n),
             concat (replicate n (rate_limited (query_of (profile_id_of url))))
               @ SearchCall (query_of (profile_id_of url)) # evs)
          \<and> (\<forall>ev \<in> set evs. \<exists>m e. ev = Warning m \<or> ev = Error m e)"
    by (simp del: fetch.simps)
next
  assume "\<forall>j<d. is_429 (search_api w (k + j) (query_of (profile_id_of url)))"
  from fetch_after_limits[OF this, of 0]
  show "fetch w d url k =
           ([], k + d,
            concat (replicate d (rate_limited (query_of (profile_id_of url))))
              @ [resolver_error RecursionError])"
    by simp
next
  show "fst (snd (fetch w d url k)) \<le> k + d" by (rule fetch_count)
qed

theorem resolver_retries_while_limited_witness:
  "fetch (stub (limited_first 1) (Content None) not_json) 1000 ada_url 0 =
     (ada_snippet, 2,
      [SearchCall ''site:linkedin.com/in/adalovelace'',
       Warning ''Rate limit reached. Waiting before retry...'', Sleep 60,
       SearchCall ''site:linkedin.com/in/adalovelace''])
   \<and> get_linkedin_profile_data (stub (always too_many_requests) (Content None) not_json) (CStr ada_url) 0 =
     ([], 1000,
      concat (replicate 1000 (rate_limited ''site:linkedin.com/in/adalovelace''))
        @ [resolver_error RecursionError])"
proof
  have "fetch (stub (limited_first 1) (Content None) not_json) 1000 ada_url 0 =
     (ada_snippet, 2,
      [SearchCall ''site:linkedin.com/in/adalovelace'',
       Warning ''Rate limit reached. Waiting before retry...'', Sleep 60,
       SearchCall ''site:linkedin.com/in/adalovelace''])"
    by code_simp
  with resolver_retries_while_limited
         [of 1 "stub (limited_first 1) (Content None) not_json" 0 ada_url 1000, THEN conjunct1]
  show "fetch (stub (limited_first 1) (Content None) not_json) 1000 ada_url 0 =
     (ada_snippet, 2,
      [SearchCall ''site:linkedin.com/in/adalovelace'',
       Warning ''Rate limit reached. Waiting before retry...'', Sleep 60,
       SearchCall ''site:linkedin.com/in/adalovelace''])"
    by simp
next
  have q: "query_of (profile_id_of ada_url) = ''site:linkedin.com/in/adalovelace''"
    by code_simp
  from resolver_retries_while_limited
         [of 0 "stub (always too_many_requests) (Content None) not_json" 0 ada_url 1000,
          THEN conjunct2, THEN conjunct1]
  show "get_linkedin_profile_data (stub (always too_many_requests) (Content None) not_json) (CStr ada_url) 0 =
     ([], 1000,
      concat (replicate 1000 (rate_limited ''site:linkedin.com/in/adalovelace''))
        @ [resolver_error RecursionError])"
    by (simp add: get_linkedin_profile_data_def stub_def always_def too_many_requests_def q)
qed

text \<open>
  The claim as stated (exactly one retry, at most one retry for an invocation) fails on
  two 429 answers in a row: the resolver waits twice and sends three requests.
\<close>

theorem resolver_retries_twice:
  "get_linkedin_profile_data (stub (limited_first 2) (Content None) not_json) (CStr ada_url) 0 =
     (ada_snippet, 3,
      [SearchCall ''site:linkedin.com/in/adalovelace'',
       Warning ''Rate limit reached. Waiting before retry...'', Sleep 60,
       SearchCall ''site:linkedin.com/in/adalovelace'',
       Warning ''Rate limit reached. Waiting before retry...'', Sleep 60,
       SearchCall ''site:linkedin.com/in/adalovelace''])"
  by code_simp

subsection \<open>The Tag Set that is written\<close>

lemma try_json_cases:
  "ld txt = Inr d \<Longrightarrow>
   \<exists>v. try_json ld txt = Inr v \<and> (v = d \<or> (\<exists>kvs. d = JObj kvs \<and> map_of kvs ''interests'' = Some v))"
  by (cases d) (auto simp: try_json_def map_of_eq_None_iff[symmetric] simp del: map_of_eq_None_iff
                     split: option.splits)

lemma get_interests_of_body:
  "fst (get_interests_from_profile w k t info) =
     (case classify_body w k t info of Inr r \<Rightarrow> r | Inl e \<Rightarrow> TagList [JStr ''Profile inaccessible''])"
  by (simp add: get_interests_from_profile_def Let_def sentinel_tags_def sentinel_def split: sum.splits)

lemma fallback_shape:
  "fallback_interests txt = [''Profile inaccessible'']
   \<or> (scan_taxonomy txt \<noteq> [] \<and> fallback_interests txt = scan_taxonomy txt)"
  by (simp add: fallback_interests_def Let_def sentinel_def)

text \<open>
  C2, as the code has it. The Tag Set the classifier returns, which the pipeline joins and
  writes into the row (\<open>classify_row\<close>), has one of three shapes: it is exactly the
  sentinel (a failure, or a text that is not JSON and names no label); or the answer was
  not JSON and it is a non-empty sequence of at most 10 distinct Taxonomy labels; or the
  answer was JSON and it is the first 10 entries of the parsed value (the \<open>interests\<close>
  field of an object, else the value itself), which nothing checks against the Taxonomy:
  it can be empty and can hold labels outside the Taxonomy.
\<close>

theorem written_tag_set_shapes:
  "(classify_row w output_file i fn ln profile_text df st = (None, df', st') \<longrightarrow>
      (\<exists>co po joined.
          row_get df (rows df ! i) ''Company'' = Inr co
        \<and> row_get df (rows df ! i) ''Position'' = Inr po
        \<and> join_tags (fst (get_interests_from_profile w (completions st) profile_text
                            \<lparr>first_name = fn, last_name = ln, company = co, position = po\<rparr>)) = Inr joined
        \<and> set_at df i ''Interests'' joined = Inr df'))
   \<and> (fst (get_interests_from_profile w k profile_text info) = TagList [JStr ''Profile inaccessible'']
      \<or> (\<exists>txt labels.
            completion_api w k (build_prompt (take 2000 profile_text) info) = Content (Some txt)
          \<and> loads w txt = Inl JSONDecodeError
          \<and> fst (get_interests_from_profile w k profile_text info) = TagList (map JStr labels)
          \<and> labels \<noteq> [] \<and> length labels \<le> 10 \<and> distinct labels \<and> set labels \<subseteq> set INTERESTS)
      \<or> (\<exists>txt d v.
            completion_api w k (build_prompt (take 2000 profile_text) info) = Content (Some txt)
          \<and> loads w txt = Inr d
          \<and> (v = d \<or> (\<exists>kvs. d = JObj kvs \<and> map_of kvs ''interests'' = Some v))
          \<and> slice10 v = Inr (fst (get_interests_from_profile w k profile_text info))))"
proof (intro conjI impI)
  assume "classify_row w output_file i fn ln profile_text df st = (None, df', st')"
  then show "\<exists>co po joined.
          row_get df (rows df ! i) ''Company'' = Inr co
        \<and> row_get df (rows df ! i) ''Position'' = Inr po
        \<and> join_tags (fst (get_interests_from_profile w (completions st) profile_text
                            \<lparr>first_name = fn, last_name = ln, company = co, position = po\<rparr>)) = Inr joined
        \<and> set_at df i ''Interests'' joined = Inr df'"
    by (auto simp: classify_row_def Let_def split: sum.splits)
next
  let ?r = "fst (get_interests_from_profile w k profile_text info)"
  let ?c = "completion_api w k (build_prompt (take 2000 profile_text) info)"
  show "?r = TagList [JStr ''Profile inaccessible'']
      \<or> (\<exists>txt labels. ?c = Content (Some txt) \<and> loads w txt = Inl JSONDecodeError
          \<and> ?r = TagList (map JStr labels)
          \<and> labels \<noteq> [] \<and> length labels \<le> 10 \<and> distinct labels \<and> set labels \<subseteq> set INTERESTS)
      \<or> (\<exists>txt d v. ?c = Content (Some txt) \<and> loads w txt = Inr d
          \<and> (v = d \<or> (\<exists>kvs. d = JObj kvs \<and> map_of kvs ''interests'' = Some v))
          \<and> slice10 v = Inr ?r)"
  proof (cases ?c)
    case (CompletionRaised e)
    then show ?thesis by (simp add: get_interests_of_body classify_body_def)
  next
    case (Content c)
    show ?thesis
    proof (cases c)
      case None
      with Content show ?thesis by (simp add: get_interests_of_body classify_body_def)
    next
      case (Some answer)
      note c = Content[unfolded Some]
      show ?thesis
      proof (cases "loads w answer")
        case (Inr d)
        from try_json_cases[of "loads w" answer d, OF Inr] obtain v where v: "try_json (loads w) answer = Inr v"
          and vd: "v = d \<or> (\<exists>kvs. d = JObj kvs \<and> map_of kvs ''interests'' = Some v)"
          by blast
        show ?thesis
        proof (cases "slice10 v")
          case (Inl e)
          with c v show ?thesis
            by (simp add: get_interests_of_body classify_body_def parse_interests_def)
        next
          case (Inr r)
          with c v have "?r = r"
            by (simp add: get_interests_of_body classify_body_def parse_interests_def)
          with c \<open>loads w answer = Inr d\<close> vd Inr show ?thesis by blast
        qed
      next
        case (Inl e)
        show ?thesis
        proof (cases "e = JSONDecodeError")
          case False
          with c Inl show ?thesis
            by (simp add: get_interests_of_body classify_body_def parse_interests_def try_json_undecodable)
        next
          case True
          with c Inl have r: "?r = TagList (map JStr (take 10 (fallback_interests answer)))"
            by (simp add: get_interests_of_body classify_body_def parse_interests_def
                  try_json_undecodable take_map)
          from fallback_shape[of answer] show ?thesis
          proof
            assume "fallback_interests answer = [''Profile inaccessible'']"
            with r show ?thesis by simp
          next
            assume s: "scan_taxonomy answer \<noteq> [] \<and> fallback_interests answer = scan_taxonomy answer"
            let ?labels = "take 10 (scan_taxonomy answer)"
            have "?labels \<noteq> []" "length ?labels \<le> 10" "distinct ?labels"
              "set ?labels \<subseteq> set INTERESTS"
              using s scan_taxonomy_distinct[of answer] scan_taxonomy_subset[of answer]
                set_take_subset[of 10 "scan_taxonomy answer"]
              by auto
            with r s c Inl True show ?thesis by auto
          qed
        qed
      qed
    qed
  qed
qed

theorem written_tag_set_shapes_witness:
  "slice10 (JArr [JStr ''Underwater Basket Weaving'']) =
     Inr (fst (get_interests_from_profile
                 (stub (always found) (Content (Some weaving_text)) (loads_as weaving_text weaving_value))
                 0 ada_snippet ada))"
proof -
  let ?w = "stub (always found) (Content (Some weaving_text)) (loads_as weaving_text weaving_value)"
  have "fst (get_interests_from_profile ?w 0 ada_snippet ada) \<noteq> TagList [JStr ''Profile inaccessible'']"
    by (simp add: get_interests_of_body classify_body_def stub_def loads_as_def parse_interests_def
          try_json_def weaving_value_def)
  moreover have "completion_api ?w 0 (build_prompt (take 2000 ada_snippet) ada) = Content (Some weaving_text)"
    by (simp add: stub_def)
  moreover have "loads ?w weaving_text = Inr weaving_value"
    by (simp add: stub_def loads_as_def)
  ultimately show ?thesis
    using written_tag_set_shapes[of ?w output_name 0 "CStr ''Ada''" "CStr ''Lovelace''" ada_snippet
            ada_table start ada_table start 0 ada, THEN conjunct2]
    by (auto simp: weaving_value_def)
qed

text \<open>
  The claim as stated fails on an answer that is JSON and names a label outside the
  Taxonomy: the label is written into the row.
\<close>

theorem tag_outside_taxonomy:
  "final_table (process_profiles (stub (always found) (Content (Some weaving_text)) (loads_as weaving_text weaving_value))
             ada_table output_name start) =
       \<lparr>columns = [''First Name'', ''Last Name'', ''Company'', ''Position'', ''URL'', ''Interests''],
        rows = [[CStr ''Ada'', CStr ''Lovelace'', CStr ''Analytical Engines'', CStr ''Mathematician'',
                 CStr ''https://linkedin.com/in/adalovelace'', CStr ''Underwater Basket Weaving'']],
        non_text = []\<rparr>
   \<and> ''Underwater Basket Weaving'' \<notin> set INTERESTS
   \<and> ''Underwater Basket Weaving'' \<noteq> sentinel"
  by code_simp

subsection \<open>The pipeline\<close>

lemma resolver_events:
  "\<forall>ev \<in> set (snd (snd (get_linkedin_profile_data w url k))). resolver_event ev"
  using fetch_events[of w "depth w" _ k]
  by (cases url) (simp_all add: get_linkedin_profile_data_def resolver_error_def)

lemma classifier_events:
  "set (snd (get_interests_from_profile w k t info)) \<subseteq>
     {CompleteCall (build_prompt (take 2000 t) info)} \<union> {ev. \<exists>p e. ev = Error p e}"
  by (auto simp: get_interests_from_profile_def Let_def split: sum.splits)

lemma classifier_calls:
  "CompleteCall (build_prompt (take 2000 t) info) \<in> set (snd (get_interests_from_profile w k t info))"
  by (auto simp: get_interests_from_profile_def Let_def split: sum.splits)

text \<open>What a successful assignment leaves: the cell holds the text, and the table keeps its
  header and its number of rows.\<close>

lemma set_at_cell:
  assumes "set_at df i c s = Inr df'" and "index_of c (columns df) = Some j"
      and "i < length (rows df)" and "j < length (rows df ! i)"
  shows "rows df' ! i ! j = CStr s" and "columns df' = columns df"
  using assms by (auto simp: set_at_def split: if_splits)

lemma set_at_refused: "c \<in> set (non_text df) \<Longrightarrow> set_at df i c s = Inl TypeError"
  by (simp add: set_at_def)

lemma set_at_accepted: "c \<notin> set (non_text df) \<Longrightarrow> \<exists>df'. set_at df i c s = Inr df'"
  by (simp add: set_at_def split: option.splits)

text \<open>
  C5, as the code has it. For a row whose cells can be read and whose resolver call
  returns an empty snippet: the classifier is not invoked, a warning naming the subject
  is logged after the resolver's events, nothing else happens (no pause, no write of the
  file), and the row's Interests cell is set to exactly the sentinel, unless the table
  came with an Interests column that holds no text, where the assignment raises and ends
  the batch. The pause of 2 time-units is taken exactly when the snippet is not empty and
  the row's Tag Set is written, that is, when no exception ends the row before the pause.
\<close>

theorem empty_snippet_skips_classifier:
  assumes "row_get df (rows df ! i) ''First Name'' = Inr fn"
      and "row_get df (rows df ! i) ''Last Name'' = Inr ln"
      and "row_get df (rows df ! i) ''URL'' = Inr url"
      and "get_linkedin_profile_data w url (searches st) = (snippet, k', evs)"
  shows "\<exists>e df' st'. process_row w output_file i df st = (e, df', st')
     \<and> (snippet = [] \<longrightarrow>
           st' = st\<lparr>searches := k',
                     trace := trace st @ Info (''Processing profile for '' @ cell_str fn @ '' '' @ cell_str ln)
                                # evs @ [Warning (''Could not fetch profile content for '' @ cell_str fn @ '' '' @ cell_str ln)]\<rparr>
         \<and> (\<forall>p. CompleteCall p \<notin> set (new_events st st'))
         \<and> (''Interests'' \<notin> set (non_text df) \<longrightarrow>
               e = None \<and> set_at df i ''Interests'' ''Profile inaccessible'' = Inr df')
         \<and> (''Interests'' \<in> set (non_text df) \<longrightarrow> e = Some TypeError \<and> df' = df))
     \<and> (Sleep 2 \<in> set (new_events st st') \<longleftrightarrow> snippet \<noteq> [] \<and> e = None)"
proof -
  from resolver_events[of w url "searches st"] assms(4)
  have ev: "\<forall>ev \<in> set evs. resolver_event ev" by simp
  then have no_sleep: "Sleep 2 \<notin> set evs" and no_call: "\<And>p. CompleteCall p \<notin> set evs"
    by auto
  show ?thesis
  proof (cases "snippet = []")
    case True
    show ?thesis
    proof (cases "''Interests'' \<in> set (non_text df)")
      case refused: True
      with True assms no_sleep no_call show ?thesis
        by (simp add: process_row_def Let_def skip_row_def emit_def new_events_def sentinel_def
              set_at_refused)
    next
      case False
      from set_at_accepted[OF this, of i sentinel] obtain df1 where
        "set_at df i ''Interests'' sentinel = Inr df1" by blast
      with False True assms no_sleep no_call show ?thesis
        by (simp add: process_row_def Let_def skip_row_def emit_def new_events_def sentinel_def)
    qed
  next
    case False
    have cl: "\<And>k t info. Sleep 2 \<notin> set (snd (get_interests_from_profile w k t info))"
      using classifier_events by fastforce
    from False assms no_sleep cl show ?thesis
      by (auto simp: process_row_def Let_def classify_row_def emit_def new_events_def
               split: sum.splits)
  qed
qed

theorem empty_snippet_skips_classifier_witness:
  "process_row (stub (always nothing_found) (Content (Some twelve_text)) (loads_as twelve_text twelve_value))
     output_name 0 (add_column ada_table ''Interests'' (CStr [])) start =
   (None,
    \<lparr>columns = [''First Name'', ''Last Name'', ''Company'', ''Position'', ''URL'', ''Interests''],
     rows = [[CStr ''Ada'', CStr ''Lovelace'', CStr ''Analytical Engines'', CStr ''Mathematician'',
              CStr ''https://linkedin.com/in/adalovelace'', CStr ''Profile inaccessible'']],
     non_text = []\<rparr>,
    start\<lparr>searches := 1,
          trace := [Info ''Processing profile for Ada Lovelace'',
                    SearchCall ''site:linkedin.com/in/adalovelace'',
                    Warning ''No profile information found in search results'',
                    Warning ''Could not fetch profile content for Ada Lovelace'']\<rparr>)"
proof -
  let ?w = "stub (always nothing_found) (Content (Some twelve_text)) (loads_as twelve_text twelve_value)"
  let ?df = "add_column ada_table ''Interests'' (CStr [])"
  have h1: "row_get ?df (rows ?df ! 0) ''First Name'' = Inr (CStr ''Ada'')" by code_simp
  have h2: "row_get ?df (rows ?df ! 0) ''Last Name'' = Inr (CStr ''Lovelace'')" by code_simp
  have h3: "row_get ?df (rows ?df ! 0) ''URL'' = Inr (CStr ada_url)" by code_simp
  have h4: "get_linkedin_profile_data ?w (CStr ada_url) (searches start) =
              ([], 1, [SearchCall ''site:linkedin.com/in/adalovelace'',
                       Warning ''No profile information found in search results''])"
    by code_simp
  have n: "''Interests'' \<notin> set (non_text ?df)" by code_simp
  have t: "set_at ?df 0 ''Interests'' ''Profile inaccessible'' =
         Inr \<lparr>columns = [''First Name'', ''Last Name'', ''Company'', ''Position'', ''URL'', ''Interests''],
              rows = [[CStr ''Ada'', CStr ''Lovelace'', CStr ''Analytical Engines'', CStr ''Mathematician'',
                       CStr ''https://linkedin.com/in/adalovelace'', CStr ''Profile inaccessible'']],
              non_text = []\<rparr>"
    by code_simp
  from empty_snippet_skips_classifier[OF h1 h2 h3 h4, of output_name] n t
  show ?thesis by (auto simp: start_def)
qed

text \<open>
  The claim as stated fails in two places. A row whose classification holds an entry that
  is not a string has a snippet and takes no pause: the join of line 181 raises and the
  batch is aborted. And a row with an empty snippet, in a table read from a file whose
  Interests column was empty, does not get the sentinel: the assignment of line 190
  raises, the cell stays as it was, and the batch is aborted.
\<close>

theorem aborted_row_takes_no_delay:
  "get_linkedin_profile_data (stub (always found) (Content (Some ones_text)) (loads_as ones_text ones_value))
      (CStr ada_url) 0 = (ada_snippet, 1, [SearchCall ''site:linkedin.com/in/adalovelace''])
   \<and> ada_snippet \<noteq> []
   \<and> raised (process_profiles (stub (always found) (Content (Some ones_text)) (loads_as ones_text ones_value))
               ada_table output_name start) = Some TypeError
   \<and> final_trace (process_profiles (stub (always found) (Content (Some ones_text)) (loads_as ones_text ones_value))
               ada_table output_name start) =
       [Info ''Processing 1 profiles'',
        Info ''Processing profile for Ada Lovelace'',
        SearchCall ''site:linkedin.com/in/adalovelace'',
        CompleteCall (build_prompt (take 2000 ada_snippet) ada),
        Error ''Error processing profiles with SerpAPI: '' (Some TypeError)]
   \<and> raised (process_profiles (stub (always nothing_found) (Content None) not_json)
               empty_interests_table output_name start) = Some TypeError
   \<and> final_table (process_profiles (stub (always nothing_found) (Content None) not_json)
               empty_interests_table output_name start) = empty_interests_table
   \<and> final_trace (process_profiles (stub (always nothing_found) (Content None) not_json)
               empty_interests_table output_name start) =
       [Info ''Processing 1 profiles'',
        Info ''Processing profile for Ada Lovelace'',
        SearchCall ''site:linkedin.com/in/adalovelace'',
        Warning ''No profile information found in search results'',
        Warning ''Could not fetch profile content for Ada Lovelace'',
        Error ''Error processing profiles with SerpAPI: '' (Some TypeError)]"
  by code_simp

text \<open>
  C1, evaluated on a table of one row whose snippet is empty: the pipeline ends without an
  exception, the table in memory holds the sentinel in the row, and the output file has
  never been written. The branch for an empty snippet (lines 188 to 190) has no
  \<open>to_csv\<close>; only the other branch saves (line 184).
\<close>

theorem sentinel_row_not_persisted:
  "raised (process_profiles (stub (always nothing_found) (Content None) not_json)
             ada_table output_name start) = None
   \<and> final_table (process_profiles (stub (always nothing_found) (Content None) not_json)
             ada_table output_name start) =
       \<lparr>columns = [''First Name'', ''Last Name'', ''Company'', ''Position'', ''URL'', ''Interests''],
        rows = [[CStr ''Ada'', CStr ''Lovelace'', CStr ''Analytical Engines'', CStr ''Mathematician'',
                 CStr ''https://linkedin.com/in/adalovelace'', CStr ''Profile inaccessible'']],
        non_text = []\<rparr>
   \<and> saved_table output_name (process_profiles (stub (always nothing_found) (Content None) not_json)
             ada_table output_name start) = None"
  by code_simp

subsection \<open>The entry point\<close>

text \<open>A table that lacks one of the four validated columns ends \<open>main\<close> before the
  pipeline is called: the only events are those of reading the file and the error of the
  validation.\<close>

lemma missing_required_column_stops_main:
  assumes "\<not> unset (openai_key en)" and "\<not> unset (serpapi_key en)"
      and "path_exists en (strip_chars [CHR 0x27, CHR 0x22] (strip (typed en)))"
      and "read_linkedin_csv en (strip_chars [CHR 0x27, CHR 0x22] (strip (typed en))) = (Inr df, evs)"
      and "c \<in> set required_columns" and "c \<notin> set (columns df)"
  shows "\<exists>m msg. main w en st = (Some (ValueError m), emit [Error msg None] (emit evs st))"
proof -
  from assms(5,6) have "filter (\<lambda>col. col \<notin> set (columns df)) required_columns \<noteq> []"
    by (auto simp: filter_empty_conv)
  then have "\<exists>msg. validate_csv_structure df = (False, [Error msg None])"
    by (simp add: validate_csv_structure_def Let_def)
  with assms(1-4) show ?thesis
    by (auto simp: main_def Let_def)
qed

text \<open>
  C7, evaluated on a table of one row that has the columns First Name, Last Name, Company
  and Position and no column URL: the validation accepts the table, the batch starts (the
  pipeline logs its size and the first row), and the run ends with the \<open>KeyError\<close> of
  \<open>row['URL']\<close> on line 167 of the pipeline. \<open>required_columns\<close> lists four labels; URL
  is not among them.
\<close>

theorem missing_url_starts_batch:
  "validate_csv_structure no_url_table = (True, [])
   \<and> ended (main (stub (always found) (Content (Some twelve_text)) (loads_as twelve_text twelve_value))
               (env_reading no_url_table) start) = Some (KeyError ''URL'')
   \<and> main_trace (main (stub (always found) (Content (Some twelve_text)) (loads_as twelve_text twelve_value))
               (env_reading no_url_table) start) =
       [Info ''Processing first 5 profiles using SerpAPI method'',
        Info ''Processing 1 profiles'',
        Info ''Processing profile for Ada Lovelace'',
        Error ''Error processing profiles with SerpAPI: '' (Some (KeyError ''URL''))]"
  by code_simp

lemma first_row_head: "first_row (head 5 df) = first_row df"
  by (cases "rows df") (simp_all add: first_row_def head_def)

lemma validate_head: "validate_csv_structure (head n df) = validate_csv_structure df"
  by (simp add: validate_csv_structure_def head_def)

lemma head_head: "head n (head n df) = head n df"
  by (simp add: head_def)

lemma read_body_head:
  "read_linkedin_csv_body (en\<lparr>read_csv := \<lambda>p n. map_sum id (head 5) (read_csv en p n)\<rparr>) file_path
     = map_sum id (head 5) (read_linkedin_csv_body en file_path)"
proof (cases "read_csv en file_path 0")
  case (Inl e)
  then show ?thesis by (simp add: read_linkedin_csv_body_def)
next
  case df: (Inr df)
  show ?thesis
  proof (cases "first_row df")
    case (Inl e)
    with df show ?thesis by (simp add: read_linkedin_csv_body_def first_row_head)
  next
    case r0: (Inr r0)
    show ?thesis
    proof (cases "looks_like_notes r0")
      case False
      with df r0 show ?thesis by (simp add: read_linkedin_csv_body_def first_row_head)
    next
      case True
      show ?thesis
      proof (cases "read_csv en file_path 1")
        case (Inl e)
        with df r0 True show ?thesis by (simp add: read_linkedin_csv_body_def first_row_head)
      next
        case df1: (Inr df1)
        show ?thesis
        proof (cases "first_row df1")
          case (Inl e)
          with df r0 True df1 show ?thesis by (simp add: read_linkedin_csv_body_def first_row_head)
        next
          case (Inr r1)
          with df r0 True df1 show ?thesis
            by (cases "read_csv en file_path 2") (simp_all add: read_linkedin_csv_body_def first_row_head)
        qed
      qed
    qed
  qed
qed

lemma read_head:
  "read_linkedin_csv (en\<lparr>read_csv := \<lambda>p n. map_sum id (head 5) (read_csv en p n)\<rparr>) file_path
     = (map_sum id (head 5) (fst (read_linkedin_csv en file_path)), snd (read_linkedin_csv en file_path))"
  by (cases "read_linkedin_csv_body en file_path") (simp_all add: read_linkedin_csv_def read_body_head)

lemma main_head:
  "main w (en\<lparr>read_csv := \<lambda>p n. map_sum id (head 5) (read_csv en p n)\<rparr>) st = main w en st"
proof (cases "read_linkedin_csv en (strip_chars [CHR 0x27, CHR 0x22] (strip (typed en)))")
  case (Pair res evs)
  then show ?thesis
    by (cases res) (simp_all add: main_def read_head Let_def validate_head head_head)
qed

lemma set_at_rows: "set_at df i c v = Inr df' \<Longrightarrow> length (rows df') = length (rows df)"
  by (auto simp: set_at_def split: if_splits option.splits)

lemma resolver_no_save: "Save f t \<notin> set (snd (snd (get_linkedin_profile_data w url k)))"
  using resolver_events[of w url k] by fastforce

lemma classifier_no_save: "Save f t \<notin> set (snd (get_interests_from_profile w k s info))"
  using classifier_events[of w k s info] by fastforce

lemma classify_row_saves:
  "classify_row w output_file i fn ln s df st = (e, df', st') \<Longrightarrow>
   length (rows df') = length (rows df)
   \<and> (\<exists>evs. trace st' = trace st @ evs
          \<and> (\<forall>f t. Save f t \<in> set evs \<longrightarrow> length (rows t) = length (rows df)))"
  by (auto simp: classify_row_def Let_def emit_def classifier_no_save dest: set_at_rows
           split: sum.splits)

lemma process_row_saves:
  assumes "process_row w output_file i df st = (e, df', st')"
  shows "length (rows df') = length (rows df)
   \<and> (\<exists>evs. trace st' = trace st @ evs
          \<and> (\<forall>f t. Save f t \<in> set evs \<longrightarrow> length (rows t) = length (rows df)))"
proof (cases "row_get df (rows df ! i) ''First Name''")
  case (Inl a)
  with assms show ?thesis by (simp add: process_row_def)
next
  case fn: (Inr fn)
  show ?thesis
  proof (cases "row_get df (rows df ! i) ''Last Name''")
    case (Inl a)
    with assms fn show ?thesis by (simp add: process_row_def)
  next
    case ln: (Inr ln)
    show ?thesis
    proof (cases "row_get df (rows df ! i) ''URL''")
      case (Inl a)
      with assms fn ln show ?thesis by (auto simp: process_row_def Let_def emit_def)
    next
      case url: (Inr url)
      let ?st1 = "emit [Info (''Processing profile for '' @ cell_str fn @ '' '' @ cell_str ln)] st"
      let ?r = "get_linkedin_profile_data w url (searches ?st1)"
      let ?st2 = "emit (snd (snd ?r)) (?st1\<lparr>searches := fst (snd ?r)\<rparr>)"
      have st2: "trace ?st2 = trace st @ Info (''Processing profile for '' @ cell_str fn @ '' '' @ cell_str ln) # snd (snd ?r)"
        by (simp add: emit_def)
      have ns: "\<And>f t. Save f t \<notin> set (snd (snd ?r))" by (rule resolver_no_save)
      show ?thesis
      proof (cases "fst ?r = []")
        case True
        with assms fn ln url
        have sk: "skip_row i (cell_str fn @ '' '' @ cell_str ln) df ?st2 = (e, df', st')"
          by (simp add: process_row_def Let_def)
        let ?st3 = "emit [Warning (''Could not fetch profile content for '' @ cell_str fn @ '' '' @ cell_str ln)] ?st2"
        from sk have "st' = ?st3" and "length (rows df') = length (rows df)"
          by (auto simp: skip_row_def Let_def dest: set_at_rows split: sum.splits)
        moreover have "trace ?st3 = trace st @ (Info (''Processing profile for '' @ cell_str fn @ '' '' @ cell_str ln) # snd (snd ?r))
                         @ [Warning (''Could not fetch profile content for '' @ cell_str fn @ '' '' @ cell_str ln)]"
          by (simp add: emit_def)
        ultimately show ?thesis using ns by auto
      next
        case False
        with assms fn ln url
        have "classify_row w output_file i fn ln (fst ?r) df ?st2 = (e, df', st')"
          by (simp add: process_row_def Let_def)
        from classify_row_saves[OF this] st2 ns show ?thesis by auto
      qed
    qed
  qed
qed

lemma rows_loop_saves:
  "rows_loop w output_file ixs df st = (e, df', st') \<Longrightarrow>
   length (rows df') = length (rows df)
   \<and> (\<exists>evs. trace st' = trace st @ evs
          \<and> (\<forall>f t. Save f t \<in> set evs \<longrightarrow> length (rows t) = length (rows df)))"
proof (induction ixs arbitrary: df st)
  case Nil
  then show ?case by simp
next
  case (Cons i ixs)
  obtain e1 df1 st1 where
    step: "process_row w output_file i df st = (e1, df1, st1)"
    by (cases "process_row w output_file i df st") auto
  note s1 = process_row_saves[OF step]
  show ?case
  proof (cases e1)
    case (Some x)
    with Cons.prems step s1 show ?thesis by auto
  next
    case None
    with Cons.prems step have "rows_loop w output_file ixs df1 st1 = (e, df', st')" by simp
    from Cons.IH[OF this] s1 show ?thesis by auto
  qed
qed

lemma process_profiles_trace:
  assumes "process_profiles w df output_file st = (e, df', st')"
  shows "\<exists>evs. trace st' = trace st @ evs
           \<and> (\<forall>f t. Save f t \<in> set evs \<longrightarrow> length (rows t) = length (rows df))"
proof -
  let ?df1 = "if ''Interests'' \<notin> set (columns df) then add_column df ''Interests'' (CStr []) else df"
  let ?st1 = "emit [Info (''Processing '' @ str_nat (length (rows ?df1)) @ '' profiles'')] st"
  have len: "length (rows ?df1) = length (rows df)" by (simp add: add_column_def)
  obtain e2 df2 st2 where
    loop: "rows_loop w output_file [0..<length (rows ?df1)] ?df1 ?st1 = (e2, df2, st2)"
    by (cases "rows_loop w output_file [0..<length (rows ?df1)] ?df1 ?st1") auto
  with assms have
    st': "st' = emit [Error ''Error processing profiles with SerpAPI: '' e2] st2
              \<or> st' = emit [Info ''SerpAPI processing completed successfully''] st2"
    by (auto simp: process_profiles_def Let_def split: option.splits)
  from rows_loop_saves[OF loop] len obtain evs where
    "trace st2 = trace ?st1 @ evs" "\<forall>f t. Save f t \<in> set evs \<longrightarrow> length (rows t) = length (rows df)"
    by auto
  with st' show ?thesis by (auto simp: emit_def)
qed

lemma main_saves:
  assumes "main w en st = (e, st')"
  shows "\<forall>f t. Save f t \<in> set (new_events st st') \<longrightarrow> length (rows t) \<le> 5"
proof (cases "unset (openai_key en) \<or> unset (serpapi_key en)
              \<or> \<not> path_exists en (strip_chars [CHR 0x27, CHR 0x22] (strip (typed en)))")
  case True
  with assms have "st' = st" by (auto simp: main_def Let_def split: if_splits)
  then show ?thesis by (simp add: new_events_def)
next
  case False
  let ?p = "strip_chars [CHR 0x27, CHR 0x22] (strip (typed en))"
  obtain res evs where rd: "read_linkedin_csv en ?p = (res, evs)" by (cases "read_linkedin_csv en ?p")
  have evs: "\<And>f t. Save f t \<notin> set evs"
    using rd by (auto simp: read_linkedin_csv_def split: sum.splits)
  show ?thesis
  proof (cases res)
    case (Inl x)
    with assms False rd evs show ?thesis
      by (auto simp: main_def Let_def new_events_def emit_def)
  next
    case (Inr df)
    let ?v = "validate_csv_structure df"
    have v: "\<And>f t. Save f t \<notin> set (snd ?v)"
      by (auto simp: validate_csv_structure_def Let_def)
    let ?st1 = "emit (snd ?v) (emit evs st)"
    show ?thesis
    proof (cases "fst ?v")
      case no: False
      with assms False rd Inr have "st' = ?st1" by (auto simp: main_def Let_def)
      with evs v show ?thesis by (auto simp: new_events_def emit_def)
    next
      case ok: True
      let ?st2 = "emit [Info ''Processing first 5 profiles using SerpAPI method''] ?st1"
      obtain e3 df3 st3 where
        pp: "process_profiles w (head 5 df) output_name ?st2 = (e3, df3, st3)"
        by (cases "process_profiles w (head 5 df) output_name ?st2") auto
      with assms False rd Inr ok have
        st': "st' = st3 \<or> st' = emit [Info (''Process completed. Results saved to '' @ output_name)] st3"
        by (auto simp: main_def Let_def split: option.splits)
      from process_profiles_trace[OF pp] obtain evs3 where
        t3: "trace st3 = trace ?st2 @ evs3"
        and s3: "\<forall>f t. Save f t \<in> set evs3 \<longrightarrow> length (rows t) = length (rows (head 5 df))"
        by blast
      have "length (rows (head 5 df)) \<le> 5" by (simp add: head_def)
      with st' t3 s3 evs v show ?thesis
        by (auto simp: new_events_def emit_def)
    qed
  qed
qed

text \<open>
  C4. \<open>main\<close> hands \<open>df.head(5)\<close> to the pipeline: a run of \<open>main\<close> is the same run,
  with the same requests, the same log and the same writes, when every table read is cut
  to its first five rows beforehand, so that no row beyond the fifth is resolved or
  classified or has any other effect; and every table the run writes to the output file
  has at most 5 rows.
\<close>

theorem main_uses_first_five_rows:
  "main w (cut_to_five en) st = main w en st
   \<and> (main w en st = (e, st') \<longrightarrow>
        (\<forall>f t. Save f t \<in> set (new_events st st') \<longrightarrow> length (rows t) \<le> 5))"
  using main_head[of w en st] main_saves[of w en st e st']
  by (simp add: cut_to_five_def)

theorem main_uses_first_five_rows_witness:
  "length (rows six_table) = 6
   \<and> main_summary (main (stub (always found) (Content (Some pair_text)) (loads_as pair_text pair_value))
                     (cut_to_five (env_reading six_table)) start) =
       (None,
        Some [person_row ''ann'' @ [CStr ''Sales, Leadership''],
              person_row ''bob'' @ [CStr ''Sales, Leadership''],
              person_row ''cy'' @ [CStr ''Sales, Leadership''],
              person_row ''dee'' @ [CStr ''Sales, Leadership''],
              person_row ''eve'' @ [CStr ''Sales, Leadership'']])"
proof -
  have "main_summary (main (stub (always found) (Content (Some pair_text)) (loads_as pair_text pair_value))
                     (env_reading six_table) start) =
       (None,
        Some [person_row ''ann'' @ [CStr ''Sales, Leadership''],
              person_row ''bob'' @ [CStr ''Sales, Leadership''],
              person_row ''cy'' @ [CStr ''Sales, Leadership''],
              person_row ''dee'' @ [CStr ''Sales, Leadership''],
              person_row ''eve'' @ [CStr ''Sales, Leadership'']])"
    by code_simp
  moreover have "length (rows six_table) = 6" by (simp add: six_table_def)
  ultimately show ?thesis
    using main_uses_first_five_rows
      [of "stub (always found) (Content (Some pair_text)) (loads_as pair_text pair_value)"
          "env_reading six_table" start, THEN conjunct1]
    by simp
qed

subsection \<open>Two runs\<close>

lemma merge_start [simp]: "merge st start = st"
  by (simp add: merge_def start_def)

lemma merge_assoc: "merge (merge a b) c = merge a (merge b c)"
  by (simp add: merge_def)

lemma merge_emit: "emit evs (merge st d) = merge st (emit evs d)"
  by (simp add: merge_def emit_def)

lemma merge_searches: "(merge st d)\<lparr>searches := searches st + k\<rparr> = merge st (d\<lparr>searches := k\<rparr>)"
  by (simp add: merge_def)

lemma merge_completions:
  "(merge st d)\<lparr>completions := Suc (completions (merge st d))\<rparr> = merge st (d\<lparr>completions := Suc (completions d)\<rparr>)"
  by (simp add: merge_def)

lemma merge_files:
  "(merge st d)\<lparr>files := (files (merge st d))(f \<mapsto> t)\<rparr> = merge st (d\<lparr>files := (files d)(f \<mapsto> t)\<rparr>)"
  by (simp add: merge_def)

lemma fetch_deterministic:
  assumes "deterministic w"
  shows "fetch w d url k = (fst (fetch w d url 0), k + fst (snd (fetch w d url 0)), snd (snd (fetch w d url 0)))"
proof (induction d arbitrary: k)
  case 0
  show ?case by simp
next
  case (Suc d)
  from assms have same: "search_api w k (query_of (profile_id_of url)) = search_api w 0 (query_of (profile_id_of url))"
    unfolding deterministic_def by blast
  show ?case
  proof (cases "search_api w 0 (query_of (profile_id_of url))")
    case (SearchRaised e)
    with same show ?thesis by simp
  next
    case (Response status body)
    show ?thesis
    proof (cases "status = 429")
      case True
      with same Response Suc.IH[of "Suc k"] Suc.IH[of "Suc 0"] show ?thesis
        by (simp add: Let_def)
    next
      case False
      with same Response show ?thesis
        by (cases "read_response (profile_id_of url) status body") simp_all
    qed
  qed
qed

lemma resolver_deterministic:
  "deterministic w \<Longrightarrow>
   get_linkedin_profile_data w url k =
     (fst (get_linkedin_profile_data w url 0), k + fst (snd (get_linkedin_profile_data w url 0)),
      snd (snd (get_linkedin_profile_data w url 0)))"
  using fetch_deterministic[of w "depth w" _ k]
  by (cases url) (simp_all add: get_linkedin_profile_data_def)

lemma classifier_deterministic:
  assumes "deterministic w"
  shows "get_interests_from_profile w k t info = get_interests_from_profile w 0 t info"
proof -
  from assms have "completion_api w k (build_prompt (take 2000 t) info)
                     = completion_api w 0 (build_prompt (take 2000 t) info)"
    unfolding deterministic_def by blast
  then show ?thesis
    by (simp add: get_interests_from_profile_def classify_body_def)
qed

lemma after_start [simp]: "after st (e, df, start) = (e, df, st)"
  by (simp add: after_def)

lemma after_simps [simp]:
  "fst (after st r) = fst r" "fst (snd (after st r)) = fst (snd r)"
  "snd (snd (after st r)) = merge st (snd (snd r))"
  by (simp_all add: after_def)

lemma after_after: "after a (after b r) = after (merge a b) r"
  by (simp add: after_def merge_assoc)

lemma emit_searches [simp]: "searches (emit evs s) = searches s"
  by (simp add: emit_def)

lemma merge_searches_sum [simp]: "searches (merge st d) = searches st + searches d"
  by (simp add: merge_def)

lemma merge_resolved:
  "emit evs ((merge st d)\<lparr>searches := searches st + k\<rparr>)
     = merge st (emit evs (d\<lparr>searches := k\<rparr>))"
  by (simp add: emit_def merge_def)

lemma classify_row_after:
  assumes "deterministic w"
  shows "classify_row w output_file i fn ln s df (merge st d)
           = after st (classify_row w output_file i fn ln s df d)"
proof -
  have g: "get_interests_from_profile w (completions (merge st d)) s info
             = get_interests_from_profile w (completions d) s info" for info
    using classifier_deterministic[OF assms, of "completions (merge st d)" s info]
          classifier_deterministic[OF assms, of "completions d" s info]
    by simp
  show ?thesis
    unfolding classify_row_def Let_def g
    by (auto simp: after_def merge_def emit_def split: sum.splits)
qed

lemma skip_row_after: "skip_row i name df (merge st d) = after st (skip_row i name df d)"
  by (simp add: skip_row_def Let_def merge_emit after_def split: sum.splits)

lemma process_row_after:
  assumes "deterministic w"
  shows "process_row w output_file i df (merge st d) = after st (process_row w output_file i df d)"
proof (cases "row_get df (rows df ! i) ''First Name''")
  case (Inl a)
  then show ?thesis by (simp add: process_row_def after_def)
next
  case fn: (Inr fn)
  show ?thesis
  proof (cases "row_get df (rows df ! i) ''Last Name''")
    case (Inl a)
    with fn show ?thesis by (simp add: process_row_def after_def)
  next
    case ln: (Inr ln)
    show ?thesis
    proof (cases "row_get df (rows df ! i) ''URL''")
      case (Inl a)
      with fn ln show ?thesis by (simp add: process_row_def Let_def after_def merge_emit)
    next
      case url: (Inr url)
      have r: "get_linkedin_profile_data w url (searches st + searches d)
                = (fst (get_linkedin_profile_data w url (searches d)),
                   searches st + fst (snd (get_linkedin_profile_data w url (searches d))),
                   snd (snd (get_linkedin_profile_data w url (searches d))))"
        using resolver_deterministic[OF assms, of url "searches st + searches d"]
              resolver_deterministic[OF assms, of url "searches d"]
        by (simp add: add.assoc)
      from fn ln url show ?thesis
        by (simp add: process_row_def Let_def r merge_resolved classify_row_after[OF assms]
              skip_row_after merge_emit)
    qed
  qed
qed

lemma rows_loop_after:
  assumes "deterministic w"
  shows "rows_loop w output_file ixs df (merge st d) = after st (rows_loop w output_file ixs df d)"
proof (induction ixs arbitrary: df d)
  case Nil
  show ?case by (simp add: after_def)
next
  case (Cons i ixs)
  obtain e df1 d1 where r: "process_row w output_file i df d = (e, df1, d1)"
    by (cases "process_row w output_file i df d") auto
  show ?case
  proof (cases e)
    case None
    with r Cons.IH[of df1 d1] show ?thesis
      by (simp add: process_row_after[OF assms] Let_def)
  next
    case (Some x)
    with r show ?thesis
      by (simp add: process_row_after[OF assms] Let_def after_def)
  qed
qed

lemma process_profiles_after:
  assumes "deterministic w"
  shows "process_profiles w df output_file (merge st d) = after st (process_profiles w df output_file d)"
proof -
  let ?df1 = "if ''Interests'' \<notin> set (columns df) then add_column df ''Interests'' (CStr []) else df"
  let ?ev = "[Info (''Processing '' @ str_nat (length (rows ?df1)) @ '' profiles'')]"
  have "rows_loop w output_file [0..<length (rows ?df1)] ?df1 (emit ?ev (merge st d))
          = after st (rows_loop w output_file [0..<length (rows ?df1)] ?df1 (emit ?ev d))"
    by (simp only: merge_emit rows_loop_after[OF assms])
  then show ?thesis
    unfolding process_profiles_def Let_def
    by (cases "rows_loop w output_file [0..<length (rows ?df1)] ?df1 (emit ?ev d)")
       (auto simp: after_def merge_emit split: option.splits)
qed

text \<open>
  C10. With deterministic stub capabilities, two runs of the pipeline on the same table
  give the same result whatever the capabilities have answered before: both end the same
  way with the same table; and a second run, started in the state the first one left (the
  output file written, the request counts advanced), ends the same way with the same table
  again, leaves the output file with the same content and emits the same events.
\<close>

theorem rerun_gives_same_output:
  assumes "deterministic w"
  shows "raised (process_profiles w df output_file st) = raised (process_profiles w df output_file st')
       \<and> final_table (process_profiles w df output_file st) = final_table (process_profiles w df output_file st')
       \<and> (process_profiles w df output_file st = (e, df1, st1) \<longrightarrow>
            (\<exists>st2. process_profiles w df output_file st1 = (e, df1, st2)
                  \<and> files st2 output_file = files st1 output_file
                  \<and> new_events st1 st2 = new_events st st1))"
proof -
  have a: "process_profiles w df output_file s = after s (process_profiles w df output_file start)" for s
    using process_profiles_after[OF assms, of df output_file s start] by simp
  have r1: "raised (process_profiles w df output_file s) = raised (process_profiles w df output_file start)"
    and r2: "final_table (process_profiles w df output_file s) = final_table (process_profiles w df output_file start)"
    for s
    by (simp_all add: a[of s] raised_def final_table_def)
  have first: "raised (process_profiles w df output_file st) = raised (process_profiles w df output_file st')"
    using r1[of st] r1[of st'] by simp
  have second: "final_table (process_profiles w df output_file st) = final_table (process_profiles w df output_file st')"
    using r2[of st] r2[of st'] by simp
  have third: "\<exists>st2. process_profiles w df output_file st1 = (e, df1, st2)
                  \<and> files st2 output_file = files st1 output_file
                  \<and> new_events st1 st2 = new_events st st1"
    if run: "process_profiles w df output_file st = (e, df1, st1)"
  proof -
    obtain e0 df0 d where d0: "process_profiles w df output_file start = (e0, df0, d)"
      by (cases "process_profiles w df output_file start") auto
    with run a[of st] have d: "process_profiles w df output_file start = (e, df1, d)"
      and st1: "st1 = merge st d"
      by (simp_all add: after_def)
    have "process_profiles w df output_file st1 = (e, df1, merge st1 d)"
      using a[of st1] d by (simp add: after_def)
    moreover have "files (merge st1 d) output_file = files st1 output_file"
      by (simp add: st1 merge_def map_add_def split: option.splits)
    moreover have "new_events st1 (merge st1 d) = new_events st st1"
      by (simp add: st1 merge_def new_events_def)
    ultimately show ?thesis by blast
  qed
  from first second third show ?thesis by blast
qed

theorem rerun_gives_same_output_witness:
  "deterministic (stub (always found) (Content (Some pair_text)) (loads_as pair_text pair_value))
   \<and> raised (process_profiles (stub (always found) (Content (Some pair_text)) (loads_as pair_text pair_value))
               ada_table output_name later) = None
   \<and> final_table (process_profiles (stub (always found) (Content (Some pair_text)) (loads_as pair_text pair_value))
               ada_table output_name later) =
       \<lparr>columns = [''First Name'', ''Last Name'', ''Company'', ''Position'', ''URL'', ''Interests''],
        rows = [[CStr ''Ada'', CStr ''Lovelace'', CStr ''Analytical Engines'', CStr ''Mathematician'',
                 CStr ''https://linkedin.com/in/adalovelace'', CStr ''Sales, Leadership'']], non_text = []\<rparr>
   \<and> (\<exists>df1 st1 st2.
         process_profiles (stub (always found) (Content (Some pair_text)) (loads_as pair_text pair_value))
           ada_table output_name start = (None, df1, st1)
       \<and> process_profiles (stub (always found) (Content (Some pair_text)) (loads_as pair_text pair_value))
           ada_table output_name st1 = (None, df1, st2)
       \<and> files st2 output_name = files st1 output_name)"
proof -
  let ?w = "stub (always found) (Content (Some pair_text)) (loads_as pair_text pair_value)"
  have det: "deterministic ?w"
    by (simp add: deterministic_def stub_def always_def)
  have r: "raised (process_profiles ?w ada_table output_name start) = None"
    by code_simp
  have t: "final_table (process_profiles ?w ada_table output_name start) =
       \<lparr>columns = [''First Name'', ''Last Name'', ''Company'', ''Position'', ''URL'', ''Interests''],
        rows = [[CStr ''Ada'', CStr ''Lovelace'', CStr ''Analytical Engines'', CStr ''Mathematician'',
                 CStr ''https://linkedin.com/in/adalovelace'', CStr ''Sales, Leadership'']], non_text = []\<rparr>"
    by code_simp
  from r obtain df1 st1 where run: "process_profiles ?w ada_table output_name start = (None, df1, st1)"
    by (cases "process_profiles ?w ada_table output_name start") (auto simp: raised_def)
  note inst = rerun_gives_same_output[OF det, of ada_table output_name start later None df1 st1]
  from inst run obtain st2 where
    "process_profiles ?w ada_table output_name st1 = (None, df1, st2)"
    "files st2 output_name = files st1 output_name"
    by blast
  with det r t inst run show ?thesis by auto
qed

end
